theory Spec2Isabelle
  imports Main "HOL-Library.Word" "HOL-Library.Sublist"
begin

unbundle bit_operations_syntax

section \<open>Strings of the host language\<close>

text \<open>
  The store of \<^verbatim>\<open>src/vitereact/src/store/main.tsx\<close> is TypeScript; at run time
  its strings are sequences of 16-bit code units, and \<^verbatim>\<open>length\<close> counts code
  units. A string literal of the source is written \<open>lit ''...''\<close>.
\<close>

type_synonym code_unit = "16 word"
type_synonym jstring = "code_unit list"

definition lit :: "string \<Rightarrow> jstring" where
  "lit s = map of_char s"

text \<open>
  \<^verbatim>\<open>String.prototype.trim\<close> strips the code units that ECMAScript calls
  WhiteSpace or LineTerminator from both ends.
\<close>

definition is_white_space :: "code_unit \<Rightarrow> bool" where
  "is_white_space c =
     (c = 0x09 \<or> c = 0x0A \<or> c = 0x0B \<or> c = 0x0C \<or> c = 0x0D \<or> c = 0x20 \<or> c = 0xA0
      \<or> c = 0x1680 \<or> (0x2000 \<le> c \<and> c \<le> 0x200A) \<or> c = 0x2028 \<or> c = 0x2029
      \<or> c = 0x202F \<or> c = 0x205F \<or> c = 0x3000 \<or> c = 0xFEFF)"

definition trim :: "jstring \<Rightarrow> jstring" where
  "trim s = rev (dropWhile is_white_space (rev (dropWhile is_white_space s)))"

text \<open>
  \<^verbatim>\<open>Number.prototype.toString\<close> on an integral Number. \<^verbatim>\<open>Date.now()\<close> returns
  a whole number of milliseconds of magnitude below \<open>8.64 * 10^15\<close>, which prints
  as plain decimal digits.
\<close>

fun digits_of :: "nat \<Rightarrow> jstring" where
  "digits_of n =
     (if n < 10 then [of_nat (48 + n)]
      else digits_of (n div 10) @ [of_nat (48 + n mod 10)])"

declare digits_of.simps [simp del]

definition toString :: "int \<Rightarrow> jstring" where
  "toString i = (if i < 0 then 0x2D # digits_of (nat (- i)) else digits_of (nat i))"

section \<open>JSON values and the built-in JSON object\<close>

text \<open>
  The values that can sit in \<^verbatim>\<open>tasks_list\<close> at run time: the annotation
  \<^verbatim>\<open>const parsed_tasks: Task[] = JSON.parse(stored_tasks)\<close> is erased by the
  compiler, so the list holds whatever \<^verbatim>\<open>JSON.parse\<close> produced. An object is
  its list of own properties in property order. A Number is carried as the literal
  that denoted it: the store never computes with one, and what it does to a Number
  (\<^verbatim>\<open>ToBoolean\<close>, serialising it again) is read off the literal, without the
  rounding to a double.
\<close>

datatype json =
    JNull
  | JBool bool
  | JNum jstring
  | JString jstring
  | JArray "json list"
  | JObject "(jstring \<times> json) list"

datatype js_error = TypeError | SyntaxError | SecurityError | QuotaExceededError

subsection \<open>JSON.stringify\<close>

definition hex_digit :: "nat \<Rightarrow> code_unit" where
  "hex_digit n = (if n < 10 then of_nat (48 + n) else of_nat (87 + n))"

definition UnicodeEscape :: "code_unit \<Rightarrow> jstring" where
  "UnicodeEscape c =
     [0x5C, 0x75, hex_digit (unat c div 4096), hex_digit (unat c div 256 mod 16),
      hex_digit (unat c div 16 mod 16), hex_digit (unat c mod 16)]"

definition is_leading_surrogate :: "code_unit \<Rightarrow> bool" where
  "is_leading_surrogate c = (0xD800 \<le> c \<and> c \<le> 0xDBFF)"

definition is_trailing_surrogate :: "code_unit \<Rightarrow> bool" where
  "is_trailing_surrogate c = (0xDC00 \<le> c \<and> c \<le> 0xDFFF)"

definition quote_unit :: "code_unit \<Rightarrow> jstring" where
  "quote_unit c =
     (if c = 0x08 then [0x5C, 0x62]
      else if c = 0x09 then [0x5C, 0x74]
      else if c = 0x0A then [0x5C, 0x6E]
      else if c = 0x0C then [0x5C, 0x66]
      else if c = 0x0D then [0x5C, 0x72]
      else if c = 0x22 then [0x5C, 0x22]
      else if c = 0x5C then [0x5C, 0x5C]
      else if c < 0x20 \<or> is_leading_surrogate c \<or> is_trailing_surrogate c
        then UnicodeEscape c
      else [c])"

text \<open>A well-formed surrogate pair is copied; a lone surrogate is escaped.\<close>

fun quote_units :: "jstring \<Rightarrow> jstring" where
  "quote_units [] = []"
| "quote_units [c] = quote_unit c"
| "quote_units (c # d # cs) =
     (if is_leading_surrogate c \<and> is_trailing_surrogate d then c # d # quote_units cs
      else quote_unit c @ quote_units (d # cs))"

definition QuoteJSONString :: "jstring \<Rightarrow> jstring" where
  "QuoteJSONString s = 0x22 # quote_units s @ [0x22]"

fun join :: "'a list \<Rightarrow> 'a list list \<Rightarrow> 'a list" where
  "join sep [] = []"
| "join sep [x] = x"
| "join sep (x # y # ys) = x @ sep @ join sep (y # ys)"

fun JSON_stringify :: "json \<Rightarrow> jstring" where
  "JSON_stringify JNull = lit ''null''"
| "JSON_stringify (JBool b) = (if b then lit ''true'' else lit ''false'')"
| "JSON_stringify (JNum l) = l"
| "JSON_stringify (JString s) = QuoteJSONString s"
| "JSON_stringify (JArray vs) = 0x5B # join [0x2C] (map JSON_stringify vs) @ [0x5D]"
| "JSON_stringify (JObject kvs) =
     0x7B # join [0x2C] (map (\<lambda>(k, v). QuoteJSONString k @ 0x3A # JSON_stringify v) kvs)
       @ [0x7D]"

subsection \<open>JSON.parse\<close>

definition json_ws :: "code_unit \<Rightarrow> bool" where
  "json_ws c = (c = 0x20 \<or> c = 0x09 \<or> c = 0x0A \<or> c = 0x0D)"

definition skip_ws :: "jstring \<Rightarrow> jstring" where
  "skip_ws s = dropWhile json_ws s"

definition hex_value :: "code_unit \<Rightarrow> nat option" where
  "hex_value c =
     (if 0x30 \<le> c \<and> c \<le> 0x39 then Some (unat c - 48)
      else if 0x61 \<le> c \<and> c \<le> 0x66 then Some (unat c - 87)
      else if 0x41 \<le> c \<and> c \<le> 0x46 then Some (unat c - 55)
      else None)"

definition escape_unit :: "code_unit \<Rightarrow> code_unit option" where
  "escape_unit e =
     (if e = 0x22 then Some 0x22
      else if e = 0x2F then Some 0x2F
      else if e = 0x5C then Some 0x5C
      else if e = 0x62 then Some 0x08
      else if e = 0x66 then Some 0x0C
      else if e = 0x6E then Some 0x0A
      else if e = 0x72 then Some 0x0D
      else if e = 0x74 then Some 0x09
      else None)"

definition cons_unit ::
  "code_unit \<Rightarrow> (jstring \<times> jstring) option \<Rightarrow> (jstring \<times> jstring) option" where
  "cons_unit c r = map_option (\<lambda>(s, rest). (c # s, rest)) r"

text \<open>
  The characters of a string literal after its opening quote: the decoded string and
  the input after the closing quote.
\<close>

fun string_body :: "jstring \<Rightarrow> (jstring \<times> jstring) option" where
  "string_body [] = None"
| "string_body (c # cs) =
     (if c = 0x22 then Some ([], cs)
      else if c = 0x5C then
        (case cs of
           [] \<Rightarrow> None
         | e # r \<Rightarrow>
             if e = 0x75 then
               (case r of
                  h1 # h2 # h3 # h4 # r' \<Rightarrow>
                    (case (hex_value h1, hex_value h2, hex_value h3, hex_value h4) of
                       (Some a, Some b, Some c', Some d) \<Rightarrow>
                         cons_unit (of_nat (a * 4096 + b * 256 + c' * 16 + d)) (string_body r')
                     | _ \<Rightarrow> None)
                | _ \<Rightarrow> None)
             else
               (case escape_unit e of
                  Some u \<Rightarrow> cons_unit u (string_body r)
                | None \<Rightarrow> None))
      else if c < 0x20 then None
      else cons_unit c (string_body cs))"

definition is_digit :: "code_unit \<Rightarrow> bool" where
  "is_digit c = (0x30 \<le> c \<and> c \<le> 0x39)"

definition lex_digits :: "jstring \<Rightarrow> (jstring \<times> jstring) option" where
  "lex_digits s =
     (if takeWhile is_digit s = [] then None
      else Some (takeWhile is_digit s, dropWhile is_digit s))"

definition lex_int :: "jstring \<Rightarrow> (jstring \<times> jstring) option" where
  "lex_int s =
     (case lex_digits s of
        None \<Rightarrow> None
      | Some (ds, r) \<Rightarrow> if hd ds = 0x30 \<and> length ds > 1 then None else Some (ds, r))"

definition lex_frac :: "jstring \<Rightarrow> (jstring \<times> jstring) option" where
  "lex_frac s =
     (case s of
        c # r \<Rightarrow>
          if c = 0x2E then map_option (\<lambda>(ds, r'). (c # ds, r')) (lex_digits r)
          else Some ([], s)
      | [] \<Rightarrow> Some ([], s))"

definition lex_sign :: "jstring \<Rightarrow> jstring \<times> jstring" where
  "lex_sign s =
     (case s of
        c # r \<Rightarrow> if c = 0x2B \<or> c = 0x2D then ([c], r) else ([], s)
      | [] \<Rightarrow> ([], s))"

definition lex_exp :: "jstring \<Rightarrow> (jstring \<times> jstring) option" where
  "lex_exp s =
     (case s of
        c # r \<Rightarrow>
          if c = 0x65 \<or> c = 0x45 then
            (case lex_sign r of
               (sg, r') \<Rightarrow> map_option (\<lambda>(ds, r''). (c # sg @ ds, r'')) (lex_digits r'))
          else Some ([], s)
      | [] \<Rightarrow> Some ([], s))"

definition lex_minus :: "jstring \<Rightarrow> jstring \<times> jstring" where
  "lex_minus s =
     (case s of
        c # r \<Rightarrow> if c = 0x2D then ([c], r) else ([], s)
      | [] \<Rightarrow> ([], s))"

definition lex_number :: "jstring \<Rightarrow> (jstring \<times> jstring) option" where
  "lex_number s =
     (case lex_minus s of
        (m, s0) \<Rightarrow>
          (case lex_int s0 of
             None \<Rightarrow> None
           | Some (i, s1) \<Rightarrow>
               (case lex_frac s1 of
                  None \<Rightarrow> None
                | Some (f, s2) \<Rightarrow>
                    (case lex_exp s2 of
                       None \<Rightarrow> None
                     | Some (e, s3) \<Rightarrow> Some (m @ i @ f @ e, s3)))))"

definition strip_prefix :: "jstring \<Rightarrow> jstring \<Rightarrow> jstring option" where
  "strip_prefix p s = (if take (length p) s = p then Some (drop (length p) s) else None)"

text \<open>
  Own property keys are ordered: array indices ascending first, then the other keys
  in the order of their creation. Defining a key that exists replaces its value in
  place.
\<close>

definition index_value :: "jstring \<Rightarrow> nat" where
  "index_value k = fold (\<lambda>c n. 10 * n + (unat c - 48)) k 0"

definition is_array_index :: "jstring \<Rightarrow> bool" where
  "is_array_index k =
     (k \<noteq> [] \<and> list_all is_digit k \<and> (hd k \<noteq> 0x30 \<or> length k = 1)
      \<and> index_value k < 2 ^ 32 - 1)"

fun insert_key :: "jstring \<Rightarrow> json \<Rightarrow> (jstring \<times> json) list \<Rightarrow> (jstring \<times> json) list" where
  "insert_key k v [] = [(k, v)]"
| "insert_key k v ((k', v') # kvs) =
     (if is_array_index k \<and> (\<not> is_array_index k' \<or> index_value k < index_value k')
      then (k, v) # (k', v') # kvs
      else (k', v') # insert_key k v kvs)"

definition CreateDataProperty ::
  "(jstring \<times> json) list \<Rightarrow> jstring \<Rightarrow> json \<Rightarrow> (jstring \<times> json) list" where
  "CreateDataProperty kvs k v =
     (if map_of kvs k = None then insert_key k v kvs
      else map (\<lambda>(k', v'). if k' = k then (k', v) else (k', v')) kvs)"

definition object_of :: "(jstring \<times> json) list \<Rightarrow> json" where
  "object_of kvs = JObject (fold (\<lambda>(k, v) obj. CreateDataProperty obj k v) kvs [])"

text \<open>
  The recursive-descent parser. Its first argument bounds the number of nested calls;
  \<open>Exhausted\<close> reports that the bound was reached, \<open>Unexpected\<close> a syntax error.
\<close>

datatype 'a parsed = Parsed 'a jstring | Unexpected | Exhausted

definition map_parsed :: "('a \<Rightarrow> 'b) \<Rightarrow> 'a parsed \<Rightarrow> 'b parsed" where
  "map_parsed f p =
     (case p of
        Parsed x r \<Rightarrow> Parsed (f x) r
      | Unexpected \<Rightarrow> Unexpected
      | Exhausted \<Rightarrow> Exhausted)"

definition parse_atom :: "jstring \<Rightarrow> json parsed" where
  "parse_atom s =
     (case s of
        [] \<Rightarrow> Unexpected
      | c # r \<Rightarrow>
          if c = 0x22 then
            (case string_body r of
               Some (str, r') \<Rightarrow> Parsed (JString str) r'
             | None \<Rightarrow> Unexpected)
          else if c = 0x2D \<or> is_digit c then
            (case lex_number s of
               Some (l, r') \<Rightarrow> Parsed (JNum l) r'
             | None \<Rightarrow> Unexpected)
          else
            (case strip_prefix (lit ''true'') s of
               Some r' \<Rightarrow> Parsed (JBool True) r'
             | None \<Rightarrow>
                 (case strip_prefix (lit ''false'') s of
                    Some r' \<Rightarrow> Parsed (JBool False) r'
                  | None \<Rightarrow>
                      (case strip_prefix (lit ''null'') s of
                         Some r' \<Rightarrow> Parsed JNull r'
                       | None \<Rightarrow> Unexpected))))"

datatype separator = Next jstring | Last jstring | Bad

definition separator :: "code_unit \<Rightarrow> jstring \<Rightarrow> separator" where
  "separator close s =
     (case skip_ws s of
        [] \<Rightarrow> Bad
      | c # r \<Rightarrow> if c = 0x2C then Next r else if c = close then Last r else Bad)"

definition member_key :: "jstring \<Rightarrow> (jstring \<times> jstring) option" where
  "member_key s =
     (case skip_ws s of
        [] \<Rightarrow> None
      | q # r \<Rightarrow>
          if q \<noteq> 0x22 then None
          else
            (case string_body r of
               None \<Rightarrow> None
             | Some (k, r1) \<Rightarrow>
                 (case skip_ws r1 of
                    [] \<Rightarrow> None
                  | c # r2 \<Rightarrow> if c = 0x3A then Some (k, r2) else None)))"

fun parse_value :: "nat \<Rightarrow> jstring \<Rightarrow> json parsed"
  and parse_elements :: "nat \<Rightarrow> jstring \<Rightarrow> json list parsed"
  and parse_members :: "nat \<Rightarrow> jstring \<Rightarrow> (jstring \<times> json) list parsed"
where
  "parse_value 0 s = Exhausted"
| "parse_value (Suc n) s =
     (case skip_ws s of
        [] \<Rightarrow> Unexpected
      | c # r \<Rightarrow>
          if c = 0x5B then
            (case skip_ws r of
               [] \<Rightarrow> Unexpected
             | d # r' \<Rightarrow>
                 if d = 0x5D then Parsed (JArray []) r'
                 else map_parsed JArray (parse_elements n (d # r')))
          else if c = 0x7B then
            (case skip_ws r of
               [] \<Rightarrow> Unexpected
             | d # r' \<Rightarrow>
                 if d = 0x7D then Parsed (JObject []) r'
                 else map_parsed object_of (parse_members n (d # r')))
          else parse_atom (c # r))"
| "parse_elements 0 s = Exhausted"
| "parse_elements (Suc n) s =
     (case parse_value n s of
        Parsed v r \<Rightarrow>
          (case separator 0x5D r of
             Next r' \<Rightarrow> map_parsed ((#) v) (parse_elements n r')
           | Last r' \<Rightarrow> Parsed [v] r'
           | Bad \<Rightarrow> Unexpected)
      | Unexpected \<Rightarrow> Unexpected
      | Exhausted \<Rightarrow> Exhausted)"
| "parse_members 0 s = Exhausted"
| "parse_members (Suc n) s =
     (case member_key s of
        None \<Rightarrow> Unexpected
      | Some (k, r) \<Rightarrow>
          (case parse_value n r of
             Parsed v r' \<Rightarrow>
               (case separator 0x7D r' of
                  Next r'' \<Rightarrow> map_parsed ((#) (k, v)) (parse_members n r'')
                | Last r'' \<Rightarrow> Parsed [(k, v)] r''
                | Bad \<Rightarrow> Unexpected)
           | Unexpected \<Rightarrow> Unexpected
           | Exhausted \<Rightarrow> Exhausted))"

text \<open>
  \<^verbatim>\<open>JSON.parse(text)\<close>: one value, surrounded by optional white space, or a
  \<^verbatim>\<open>SyntaxError\<close>. The bound \<open>2 * length s + 2\<close> is never reached
  (lemma \<open>JSON_parse_never_Exhausted\<close> below).
\<close>

definition JSON_parse :: "jstring \<Rightarrow> js_error + json" where
  "JSON_parse s =
     (case parse_value (2 * length s + 2) s of
        Parsed v r \<Rightarrow> if skip_ws r = [] then Inr v else Inl SyntaxError
      | Unexpected \<Rightarrow> Inl SyntaxError
      | Exhausted \<Rightarrow> Inl SyntaxError)"

section \<open>The data model of the store\<close>

text \<open>\<^verbatim>\<open>interface Task { id: string; description: string; completed: boolean }\<close>\<close>

record Task =
  id' :: jstring
  description :: jstring
  completed :: bool

text \<open>
  The object that a \<^verbatim>\<open>Task\<close> is at run time, with its properties in the order
  in which \<^verbatim>\<open>add_new_task\<close> writes them.
\<close>

definition task_object :: "Task \<Rightarrow> json" where
  "task_object t =
     JObject [(lit ''id'', JString (id' t)),
              (lit ''description'', JString (description t)),
              (lit ''completed'', JBool (completed t))]"

datatype app_status = initialized | local_storage_unavailable | error

record AppState =
  app_status :: app_status
  has_persisted_data :: bool
  task_input_description :: jstring
  tasks_list :: "json list"
  is_loading_tasks :: bool
  error_message :: "jstring option"

definition LOCAL_STORAGE_KEY :: jstring where
  "LOCAL_STORAGE_KEY = lit ''nex_task_tasks''"

definition TASK_DESCRIPTION_MAX_LENGTH :: nat where
  "TASK_DESCRIPTION_MAX_LENGTH = 256"

text \<open>The state the store is created with.\<close>

definition initial_state :: AppState where
  "initial_state =
     \<lparr>app_status = initialized, has_persisted_data = False, task_input_description = [],
      tasks_list = [], is_loading_tasks = True, error_message = None\<rparr>"

section \<open>The browser around the store\<close>

text \<open>
  \<^verbatim>\<open>localStorage\<close>: its items, the two ways an access to it can throw (access to
  the storage is denied, so that already reading the global \<^verbatim>\<open>localStorage\<close> throws a
  \<^verbatim>\<open>SecurityError\<close>; a write is refused for lack of space), and the calls attempted on
  it so far.
\<close>

datatype storage_call = GetItem jstring | SetItem jstring jstring

record Storage =
  items :: "jstring \<rightharpoonup> jstring"
  access_denied :: bool
  quota_exceeded :: bool
  calls :: "storage_call list"

definition getItem :: "jstring \<Rightarrow> Storage \<Rightarrow> (js_error + jstring option) \<times> Storage" where
  "getItem k st =
     (if access_denied st then Inl SecurityError else Inr (items st k),
      st\<lparr>calls := calls st @ [GetItem k]\<rparr>)"

definition setItem :: "jstring \<Rightarrow> jstring \<Rightarrow> Storage \<Rightarrow> (js_error + unit) \<times> Storage" where
  "setItem k v st =
     (if access_denied st then (Inl SecurityError, st\<lparr>calls := calls st @ [SetItem k v]\<rparr>)
      else if quota_exceeded st
        then (Inl QuotaExceededError, st\<lparr>calls := calls st @ [SetItem k v]\<rparr>)
      else (Inr (), st\<lparr>items := (items st)(k \<mapsto> v), calls := calls st @ [SetItem k v]\<rparr>))"

text \<open>
  A pending \<^verbatim>\<open>setTimeout\<close>: its delay in milliseconds and what it will call. The
  store only ever schedules \<^verbatim>\<open>() => clear_error_message()\<close>.
\<close>

datatype callback = Call_clear_error_message

record World =
  store :: AppState
  localStorage :: Storage
  timers :: "(nat \<times> callback) list"

text \<open>How a call ends: it returns a value, or an exception leaves it.\<close>

datatype 'a completion = Returned 'a | Threw js_error

section \<open>Values at run time\<close>

text \<open>
  Reading a property \<open>p\<close> that no built-in prototype defines (\<^verbatim>\<open>id\<close>,
  \<^verbatim>\<open>completed\<close>): \<^verbatim>\<open>undefined\<close> is \<open>None\<close>; on \<^verbatim>\<open>null\<close> the read throws.
\<close>

fun property :: "json \<Rightarrow> jstring \<Rightarrow> js_error + json option" where
  "property JNull p = Inl TypeError"
| "property (JObject kvs) p = Inr (map_of kvs p)"
| "property v p = Inr None"

text \<open>
  \<^verbatim>\<open>ToBoolean\<close>, as applied by \<^verbatim>\<open>!task.completed\<close>. A Number is falsy when it
  is zero: when every digit of its literal before the exponent is 0.
\<close>

definition zero_literal :: "jstring \<Rightarrow> bool" where
  "zero_literal l =
     list_all (\<lambda>c. c = 0x30 \<or> c = 0x2E \<or> c = 0x2D)
       (takeWhile (\<lambda>c. c \<noteq> 0x65 \<and> c \<noteq> 0x45) l)"

fun ToBoolean :: "json option \<Rightarrow> bool" where
  "ToBoolean None = False"
| "ToBoolean (Some JNull) = False"
| "ToBoolean (Some (JBool b)) = b"
| "ToBoolean (Some (JNum l)) = (\<not> zero_literal l)"
| "ToBoolean (Some (JString s)) = (s \<noteq> [])"
| "ToBoolean (Some (JArray vs)) = True"
| "ToBoolean (Some (JObject kvs)) = True"

text \<open>
  \<^verbatim>\<open>Array.prototype.map\<close> and \<^verbatim>\<open>Array.prototype.filter\<close> with a callback that
  may throw: the first exception leaves the loop.
\<close>

fun map_array :: "('a \<Rightarrow> js_error + 'b) \<Rightarrow> 'a list \<Rightarrow> js_error + 'b list" where
  "map_array f [] = Inr []"
| "map_array f (x # xs) =
     (case f x of
        Inl e \<Rightarrow> Inl e
      | Inr y \<Rightarrow> (case map_array f xs of Inl e \<Rightarrow> Inl e | Inr ys \<Rightarrow> Inr (y # ys)))"

fun filter_array :: "('a \<Rightarrow> js_error + bool) \<Rightarrow> 'a list \<Rightarrow> js_error + 'a list" where
  "filter_array f [] = Inr []"
| "filter_array f (x # xs) =
     (case f x of
        Inl e \<Rightarrow> Inl e
      | Inr keep \<Rightarrow>
          (case filter_array f xs of
             Inl e \<Rightarrow> Inl e
           | Inr ys \<Rightarrow> Inr (if keep then x # ys else ys)))"

section \<open>The persist middleware\<close>

text \<open>
  The store is created as \<^verbatim>\<open>create<AppStore>()(persist((set, get) => ({...}), {...}))\<close>,
  so the \<^verbatim>\<open>set\<close> that its actions call is the one the \<^verbatim>\<open>persist\<close> middleware of
  zustand hands to them. The options name the item of the middleware, its storage
  (\<^verbatim>\<open>getStorage: () => localStorage\<close>) and the part of the state it is given to persist.
  zustand is a library that the store imports; of its middleware this section keeps
  what the actions of the store depend on: what a call of \<^verbatim>\<open>set\<close> writes, and how
  it ends when the write fails.
\<close>

definition persist_name :: jstring where
  "persist_name = lit ''nex_task_store''"

definition partialize :: "AppState \<Rightarrow> json" where
  "partialize state =
     JObject [(lit ''tasks_list'', JArray (tasks_list state)),
              (lit ''has_persisted_data'', JBool (has_persisted_data state))]"

text \<open>
  What the middleware stores under its name: the selected part of the state beside
  the version of the layout, which is 0 when the options give none, serialised by
  \<^verbatim>\<open>JSON.stringify\<close>.
\<close>

definition persist_item :: "AppState \<Rightarrow> jstring" where
  "persist_item state =
     JSON_stringify (JObject [(lit ''state'', partialize state), (lit ''version'', JNum (lit ''0''))])"

text \<open>
  \<^verbatim>\<open>set(partial)\<close>. The state is updated first; then the middleware writes its item,
  and an exception of that write leaves \<^verbatim>\<open>set\<close>. The middleware asks for its storage
  once, when the store is created, inside a \<^verbatim>\<open>try\<close>: where access to
  \<^verbatim>\<open>localStorage\<close> is denied it has none, and its \<^verbatim>\<open>set\<close> only updates the state.
  The update is given as a function on the state, \<open>\<lambda>s. s\<lparr>field := value\<rparr>\<close> for
  \<^verbatim>\<open>set({ field: value })\<close>.
\<close>

definition set' :: "(AppState \<Rightarrow> AppState) \<Rightarrow> World \<Rightarrow> unit completion \<times> World" where
  "set' partial w =
     (let w1 = w\<lparr>store := partial (store w)\<rparr> in
      if access_denied (localStorage w1) then (Returned (), w1)
      else
        (let (put, ls) = setItem persist_name (persist_item (store w1)) (localStorage w1)
         in (case put of Inl e \<Rightarrow> Threw e | Inr u \<Rightarrow> Returned (), w1\<lparr>localStorage := ls\<rparr>)))"

text \<open>
  One statement after another: when an exception leaves the first, the rest is not
  run.
\<close>

definition seq ::
  "unit completion \<times> World \<Rightarrow> (World \<Rightarrow> 'a completion \<times> World) \<Rightarrow> 'a completion \<times> World" where
  "seq first rest =
     (case fst first of Threw e \<Rightarrow> (Threw e, snd first) | Returned u \<Rightarrow> rest (snd first))"

section \<open>The actions of the store\<close>

text \<open>
  Each action takes the world before the call and gives how the call ends and the
  world after it.
\<close>

definition clear_error_message :: "World \<Rightarrow> unit completion \<times> World" where
  "clear_error_message w = set' (\<lambda>s. s\<lparr>error_message := None\<rparr>) w"

definition set_task_input_description :: "jstring \<Rightarrow> World \<Rightarrow> unit completion \<times> World" where
  "set_task_input_description description' w =
     seq (set' (\<lambda>s. s\<lparr>task_input_description := description'\<rparr>) w)
       (\<lambda>w1. case error_message (store w1) of
                None \<Rightarrow> (Returned (), w1)
              | Some m \<Rightarrow> if m \<noteq> [] then clear_error_message w1 else (Returned (), w1))"

definition storage_failure_message :: jstring where
  "storage_failure_message =
     lit ''Failed to load data from browser storage. Data might be corrupted or storage is full.''"

text \<open>
  The \<^verbatim>\<open>try\<close> block of \<^verbatim>\<open>load_tasks_from_local_storage\<close>: it ends normally, or
  an exception of \<^verbatim>\<open>getItem\<close>, of \<^verbatim>\<open>JSON.parse\<close> or of \<^verbatim>\<open>set\<close> reaches the
  \<^verbatim>\<open>catch\<close>.
\<close>

definition load_attempt :: "World \<Rightarrow> unit completion \<times> World" where
  "load_attempt w =
     (let (got, ls) = getItem LOCAL_STORAGE_KEY (localStorage w);
          w1 = w\<lparr>localStorage := ls\<rparr>
      in case got of
           Inl e \<Rightarrow> (Threw e, w1)
         | Inr stored_tasks \<Rightarrow>
             (case stored_tasks of
                None \<Rightarrow> set' (\<lambda>s. s\<lparr>tasks_list := [], has_persisted_data := False\<rparr>) w1
              | Some text \<Rightarrow>
                  if text = [] then set' (\<lambda>s. s\<lparr>tasks_list := [], has_persisted_data := False\<rparr>) w1
                  else
                    (case JSON_parse text of
                       Inl e \<Rightarrow> (Threw e, w1)
                     | Inr parsed_tasks \<Rightarrow>
                         (case parsed_tasks of
                            JArray elements \<Rightarrow>
                              set' (\<lambda>s. s\<lparr>tasks_list := elements,
                                          has_persisted_data := (length elements > 0),
                                          app_status := initialized\<rparr>) w1
                          | _ \<Rightarrow>
                              set' (\<lambda>s. s\<lparr>tasks_list := [], app_status := error,
                                          error_message :=
                                            Some (lit ''Corrupted data in local storage.'')\<rparr>) w1))))"

text \<open>
  \<^verbatim>\<open>load_tasks_from_local_storage\<close>. The first \<^verbatim>\<open>set\<close> stands before the
  \<^verbatim>\<open>try\<close>. The \<^verbatim>\<open>catch\<close> block runs when an exception left the \<^verbatim>\<open>try\<close> block,
  the \<^verbatim>\<open>finally\<close> block runs in either case, and an exception of the \<^verbatim>\<open>finally\<close>
  block replaces the way the statement would have ended.
\<close>

definition load_tasks_from_local_storage :: "World \<Rightarrow> unit completion \<times> World" where
  "load_tasks_from_local_storage w =
     seq (set' (\<lambda>s. s\<lparr>is_loading_tasks := True\<rparr>) w)
       (\<lambda>w1. let (tried, w2) = load_attempt w1;
                  (caught, w3) =
                    (case tried of
                       Returned u \<Rightarrow> (Returned (), w2)
                     | Threw e \<Rightarrow>
                         set' (\<lambda>s. s\<lparr>tasks_list := [], app_status := local_storage_unavailable,
                                     error_message := Some storage_failure_message,
                                     has_persisted_data := False\<rparr>) w2);
                  (finished, w4) = set' (\<lambda>s. s\<lparr>is_loading_tasks := False\<rparr>) w3
              in (case finished of Threw e \<Rightarrow> Threw e | Returned u \<Rightarrow> caught, w4))"

text \<open>
  \<^verbatim>\<open>add_new_task\<close>; \<open>now\<close> is what \<^verbatim>\<open>Date.now()\<close> returns during the call.
\<close>

definition add_new_task :: "int \<Rightarrow> World \<Rightarrow> bool completion \<times> World" where
  "add_new_task now w =
     (let trimmed_description = trim (task_input_description (store w)) in
      if trimmed_description = [] then
        seq (set' (\<lambda>s. s\<lparr>error_message := Some (lit ''Task cannot be empty.'')\<rparr>) w)
          (\<lambda>w1. (Returned False, w1\<lparr>timers := timers w1 @ [(3000, Call_clear_error_message)]\<rparr>))
      else if length trimmed_description > TASK_DESCRIPTION_MAX_LENGTH then
        seq (set' (\<lambda>s. s\<lparr>error_message :=
                   Some (lit ''Task is too long (max '' @ toString (int TASK_DESCRIPTION_MAX_LENGTH)
                         @ lit '' characters).'')\<rparr>) w)
          (\<lambda>w1. (Returned False, w1\<lparr>timers := timers w1 @ [(3000, Call_clear_error_message)]\<rparr>))
      else
        (let new_task = \<lparr>id' = toString now, description = trimmed_description,
                          completed = False\<rparr>;
             updated_tasks = tasks_list (store w) @ [task_object new_task]
         in seq (set' (\<lambda>s. s\<lparr>tasks_list := updated_tasks, task_input_description := [],
                              has_persisted_data := True\<rparr>) w)
              (\<lambda>w1. let (put, ls) = setItem LOCAL_STORAGE_KEY (JSON_stringify (JArray updated_tasks))
                                       (localStorage w1)
                     in (case put of Inl e \<Rightarrow> Threw e | Inr u \<Rightarrow> Returned True,
                         w1\<lparr>localStorage := ls\<rparr>))))"

text \<open>
  The callback of \<^verbatim>\<open>toggle_task_completion\<close>:
  \<^verbatim>\<open>task.id === task_id ? { ...task, completed: !task.completed } : task\<close>.
  Only an object can have an \<^verbatim>\<open>id\<close>, so the spread copies an object.
\<close>

definition toggle_one :: "jstring \<Rightarrow> json \<Rightarrow> js_error + json" where
  "toggle_one task_id task =
     (case property task (lit ''id'') of
        Inl e \<Rightarrow> Inl e
      | Inr v \<Rightarrow>
          if v = Some (JString task_id) then
            (case task of
               JObject kvs \<Rightarrow>
                 Inr (JObject (CreateDataProperty kvs (lit ''completed'')
                        (JBool (\<not> ToBoolean (map_of kvs (lit ''completed''))))))
             | _ \<Rightarrow> Inr task)
          else Inr task)"

definition toggle_task_completion :: "jstring \<Rightarrow> World \<Rightarrow> unit completion \<times> World" where
  "toggle_task_completion task_id w =
     (case map_array (toggle_one task_id) (tasks_list (store w)) of
        Inl e \<Rightarrow> (Threw e, w)
      | Inr updated_tasks \<Rightarrow>
          seq (set' (\<lambda>s. s\<lparr>tasks_list := updated_tasks\<rparr>) w)
            (\<lambda>w1. let (put, ls) = setItem LOCAL_STORAGE_KEY (JSON_stringify (JArray updated_tasks))
                                     (localStorage w1)
                   in (case put of Inl e \<Rightarrow> Threw e | Inr u \<Rightarrow> Returned (),
                       w1\<lparr>localStorage := ls\<rparr>)))"

text \<open>The callback of \<^verbatim>\<open>delete_task\<close>: \<^verbatim>\<open>task.id !== task_id\<close>.\<close>

definition keep_one :: "jstring \<Rightarrow> json \<Rightarrow> js_error + bool" where
  "keep_one task_id task =
     (case property task (lit ''id'') of
        Inl e \<Rightarrow> Inl e
      | Inr v \<Rightarrow> Inr (v \<noteq> Some (JString task_id)))"

definition delete_task :: "jstring \<Rightarrow> World \<Rightarrow> unit completion \<times> World" where
  "delete_task task_id w =
     (case filter_array (keep_one task_id) (tasks_list (store w)) of
        Inl e \<Rightarrow> (Threw e, w)
      | Inr updated_tasks \<Rightarrow>
          seq (set' (\<lambda>s. s\<lparr>tasks_list := updated_tasks,
                           has_persisted_data := (length updated_tasks > 0)\<rparr>) w)
            (\<lambda>w1. let (put, ls) = setItem LOCAL_STORAGE_KEY (JSON_stringify (JArray updated_tasks))
                                     (localStorage w1)
                   in (case put of Inl e \<Rightarrow> Threw e | Inr u \<Rightarrow> Returned (),
                       w1\<lparr>localStorage := ls\<rparr>)))"

section \<open>Runs of the store\<close>

text \<open>
  What the user interface does to the store, one call after another. An exception
  that leaves a call ends that call only; the next event finds the world as the call
  left it.
\<close>

datatype event =
    Type_input jstring
  | Add int
  | Toggle jstring
  | Delete jstring

fun step :: "World \<Rightarrow> event \<Rightarrow> World" where
  "step w (Type_input text) = snd (set_task_input_description text w)"
| "step w (Add now) = snd (add_new_task now w)"
| "step w (Toggle task_id) = snd (toggle_task_completion task_id w)"
| "step w (Delete task_id) = snd (delete_task task_id w)"

definition run :: "World \<Rightarrow> event list \<Rightarrow> World" where
  "run w es = foldl step w es"

text \<open>
  A working storage that holds no item, and the store in its initial state beside it.
\<close>

definition empty_storage :: Storage where
  "empty_storage =
     \<lparr>items = Map.empty, access_denied = False, quota_exceeded = False, calls = []\<rparr>"

definition initial_world :: World where
  "initial_world = \<lparr>store = initial_state, localStorage = empty_storage, timers = []\<rparr>"

text \<open>The \<^verbatim>\<open>id\<close> of each element of a task list, \<open>None\<close> where there is none.\<close>

definition ids_of :: "json list \<Rightarrow> json option list" where
  "ids_of ts = map (\<lambda>t. case t of JObject kvs \<Rightarrow> map_of kvs (lit ''id'') | _ \<Rightarrow> None) ts"

text \<open>
  The readings of \<^verbatim>\<open>Date.now()\<close> along a run, in the order the run takes them: one per
  call of \<^verbatim>\<open>add_new_task\<close>.
\<close>

fun clocks :: "event list \<Rightarrow> int list" where
  "clocks [] = []"
| "clocks (Add now # es) = now # clocks es"
| "clocks (e # es) = clocks es"

text \<open>
  The ids of a list of tasks are pairwise distinct and each is the decimal form of a
  clock reading below \<open>b\<close>.
\<close>

definition ids_below :: "int \<Rightarrow> Task list \<Rightarrow> bool" where
  "ids_below b ts = (distinct (map id' ts) \<and> (\<forall>t \<in> set ts. \<exists>c < b. id' t = toString c))"

text \<open>What a pending timer does when it fires.\<close>

fun fire :: "callback \<Rightarrow> World \<Rightarrow> unit completion \<times> World" where
  "fire Call_clear_error_message w = clear_error_message w"

text \<open>The calls a step made on \<^verbatim>\<open>localStorage\<close>: those logged after the world \<open>w\<close>.\<close>

definition new_calls :: "World \<Rightarrow> World \<Rightarrow> storage_call list" where
  "new_calls w w' = drop (length (calls (localStorage w))) (calls (localStorage w'))"

text \<open>A world with the given state of the store and the given items in a working storage.\<close>

definition world_of :: "AppState \<Rightarrow> (jstring \<rightharpoonup> jstring) \<Rightarrow> World" where
  "world_of s m = \<lparr>store = s, localStorage = empty_storage\<lparr>items := m\<rparr>, timers = []\<rparr>"

text \<open>
  \<^verbatim>\<open>taskSchema\<close> of \<^verbatim>\<open>src/unnamed/part_001\<close>, the only description of the shape
  of a task in the repository:
  \<^verbatim>\<open>z.object({ id: z.string(), description: z.string(), completed: z.boolean() })\<close>.
  It accepts a value when the value is an object with these three properties of these
  types. The store never calls it.
\<close>

definition taskSchema :: "json \<Rightarrow> bool" where
  "taskSchema v =
     (case v of
        JObject kvs \<Rightarrow>
          (case map_of kvs (lit ''id'') of Some (JString i) \<Rightarrow> True | _ \<Rightarrow> False)
          \<and> (case map_of kvs (lit ''description'') of Some (JString d) \<Rightarrow> True | _ \<Rightarrow> False)
          \<and> (case map_of kvs (lit ''completed'') of Some (JBool c) \<Rightarrow> True | _ \<Rightarrow> False)
      | _ \<Rightarrow> False)"

text \<open>
  The worlds of the end-to-end scenarios: an empty store with ``Buy milk'' typed in;
  a store that holds one task X; an empty store with 257 letters typed in, and one
  with blanks only; the store with X beside a slot that something else has
  overwritten with \<^verbatim>\<open>{}\<close>; and a storage that refuses writes or all access.
\<close>

definition task_X :: Task where
  "task_X = \<lparr>id' = lit ''1'', description = lit ''X'', completed = False\<rparr>"

definition scenario_A :: World where
  "scenario_A = world_of (initial_state\<lparr>task_input_description := lit ''Buy milk''\<rparr>) Map.empty"

definition scenario_B :: World where
  "scenario_B =
     world_of (initial_state\<lparr>tasks_list := [task_object task_X], has_persisted_data := True,
                 is_loading_tasks := False\<rparr>) Map.empty"

definition scenario_C :: World where
  "scenario_C = world_of (initial_state\<lparr>task_input_description := replicate 257 0x61\<rparr>) Map.empty"

definition blank_input :: World where
  "blank_input = world_of (initial_state\<lparr>task_input_description := lit ''   ''\<rparr>) Map.empty"

definition overwritten_slot :: World where
  "overwritten_slot = world_of (store scenario_B) [LOCAL_STORAGE_KEY \<mapsto> lit ''{}'']"

definition storage_full :: "World \<Rightarrow> World" where
  "storage_full w = w\<lparr>localStorage := (localStorage w)\<lparr>quota_exceeded := True\<rparr>\<rparr>"

definition storage_denied :: "World \<Rightarrow> World" where
  "storage_denied w = w\<lparr>localStorage := (localStorage w)\<lparr>access_denied := True\<rparr>\<rparr>"

section \<open>JSON.parse inverts JSON.stringify on task lists\<close>

lemma nibbles: "(x::nat) div 4096 * 4096 + x div 256 mod 16 * 256 + x div 16 mod 16 * 16 + x mod 16 = x"
proof -
  define q1 where "q1 = x div 16"
  define q2 where "q2 = q1 div 16"
  define q3 where "q3 = q2 div 16"
  have d1: "x div 256 = q2" by (simp add: q1_def q2_def div_mult2_eq)
  have d2: "x div 4096 = q3" by (simp add: q1_def q2_def q3_def div_mult2_eq)
  have e1: "x = q1 * 16 + x mod 16" by (simp add: q1_def)
  have e2: "q1 = q2 * 16 + q1 mod 16" by (simp add: q2_def)
  have e3: "q2 = q3 * 16 + q2 mod 16" by (simp add: q3_def)
  have "q3 * 4096 + q2 mod 16 * 256 + q1 mod 16 * 16 + x mod 16 = x"
    using e1 e2 e3 by linarith
  then show ?thesis by (simp only: d1 d2 q1_def [symmetric])
qed

lemma unat_small: "k < 65536 \<Longrightarrow> unat (of_nat k :: 16 word) = k"
  by (simp add: unat_of_nat)

lemma hex_value_hex_digit: "n < 16 \<Longrightarrow> hex_value (hex_digit n) = Some n"
proof (cases "n < 10")
  case True
  have "unat (of_nat (48 + n) :: 16 word) = 48 + n"
    by (rule unat_small) (use True in simp)
  then show ?thesis using True
    by (simp add: hex_value_def hex_digit_def word_le_nat_alt)
next
  case False
  assume "n < 16"
  have "unat (of_nat (87 + n) :: 16 word) = 87 + n"
    by (rule unat_small) (use \<open>n < 16\<close> in simp)
  then show ?thesis using False \<open>n < 16\<close>
    by (simp add: hex_value_def hex_digit_def word_le_nat_alt)
qed

lemma string_body_hex:
  "hex_value h1 = Some a \<Longrightarrow> hex_value h2 = Some b \<Longrightarrow> hex_value h3 = Some c \<Longrightarrow> hex_value h4 = Some d
   \<Longrightarrow> string_body (0x5C # 0x75 # h1 # h2 # h3 # h4 # r)
       = cons_unit (of_nat (a * 4096 + b * 256 + c * 16 + d)) (string_body r)"
  by (simp del: of_nat_add of_nat_mult)

lemma string_body_escapes:
  "string_body (0x5C # 0x62 # r) = cons_unit 0x08 (string_body r)"
  "string_body (0x5C # 0x74 # r) = cons_unit 0x09 (string_body r)"
  "string_body (0x5C # 0x6E # r) = cons_unit 0x0A (string_body r)"
  "string_body (0x5C # 0x66 # r) = cons_unit 0x0C (string_body r)"
  "string_body (0x5C # 0x72 # r) = cons_unit 0x0D (string_body r)"
  "string_body (0x5C # 0x22 # r) = cons_unit 0x22 (string_body r)"
  "string_body (0x5C # 0x5C # r) = cons_unit 0x5C (string_body r)"
  by (simp_all add: escape_unit_def)

lemma string_body_literal:
  "c \<noteq> 0x22 \<Longrightarrow> c \<noteq> 0x5C \<Longrightarrow> \<not> c < 0x20 \<Longrightarrow> string_body (c # r) = cons_unit c (string_body r)"
  by simp

lemma string_body_quote: "string_body (0x22 # r) = Some ([], r)"
  by simp

declare string_body.simps [simp del]

lemma string_body_UnicodeEscape:
  "string_body (UnicodeEscape c @ r) = cons_unit c (string_body r)"
proof -
  have lt: "unat c < 65536" using unsigned_less [of c] by simp
  have eq: "of_nat (unat c div 4096 * 4096 + unat c div 256 mod 16 * 256 + unat c div 16 mod 16 * 16 + unat c mod 16) = c"
    by (simp only: nibbles) simp
  have h: "hex_value (hex_digit (unat c div 4096)) = Some (unat c div 4096)"
    "hex_value (hex_digit (unat c div 256 mod 16)) = Some (unat c div 256 mod 16)"
    "hex_value (hex_digit (unat c div 16 mod 16)) = Some (unat c div 16 mod 16)"
    "hex_value (hex_digit (unat c mod 16)) = Some (unat c mod 16)"
    using lt by (simp_all add: hex_value_hex_digit)
  have "string_body (UnicodeEscape c @ r) = cons_unit (of_nat (unat c div 4096 * 4096 + unat c div 256 mod 16 * 256 + unat c div 16 mod 16 * 16 + unat c mod 16)) (string_body r)"
    unfolding UnicodeEscape_def append.simps by (rule string_body_hex [OF h])
  then show ?thesis by (simp only: eq)
qed

lemma string_body_quote_unit:
  "string_body (quote_unit c @ r) = cons_unit c (string_body r)"
  unfolding quote_unit_def
  by (simp add: string_body_UnicodeEscape string_body_escapes string_body_literal)

lemma surrogate_literal:
  "is_leading_surrogate c \<or> is_trailing_surrogate c \<Longrightarrow> c \<noteq> 0x22 \<and> c \<noteq> 0x5C \<and> \<not> c < 0x20"
  unfolding is_leading_surrogate_def is_trailing_surrogate_def
  by (auto simp: word_le_nat_alt word_less_nat_alt)

lemma cons_unit_Some [simp]: "cons_unit c (Some (s, r)) = Some (c # s, r)"
  by (simp add: cons_unit_def)

lemma string_body_quote_units:
  "string_body (quote_units s @ 0x22 # r) = Some (s, r)"
proof (induction s rule: quote_units.induct)
  case 1
  show ?case by (simp add: string_body_quote)
next
  case (2 c)
  have "string_body (quote_unit c @ 0x22 # r) = cons_unit c (string_body (0x22 # r))"
    by (rule string_body_quote_unit)
  then show ?case by (simp add: string_body_quote)
next
  case (3 c d cs)
  show ?case
  proof (cases "is_leading_surrogate c \<and> is_trailing_surrogate d")
    case True
    then have "string_body (c # d # quote_units cs @ 0x22 # r)
        = cons_unit c (cons_unit d (string_body (quote_units cs @ 0x22 # r)))"
      using surrogate_literal [of c] surrogate_literal [of d]
      by (simp add: string_body_literal)
    then show ?thesis using True 3 by simp
  next
    case False
    have "string_body (quote_unit c @ quote_units (d # cs) @ 0x22 # r)
        = cons_unit c (string_body (quote_units (d # cs) @ 0x22 # r))"
      by (rule string_body_quote_unit)
    then show ?thesis using False 3 by auto
  qed
qed

lemma skip_ws_keep: "\<not> json_ws c \<Longrightarrow> skip_ws (c # r) = c # r"
  by (simp add: skip_ws_def)

lemma not_ws [simp]: "\<not> json_ws 0x22" "\<not> json_ws 0x7B" "\<not> json_ws 0x5B" "\<not> json_ws 0x3A"
  "\<not> json_ws 0x2C" "\<not> json_ws 0x7D" "\<not> json_ws 0x5D" "\<not> json_ws 0x74" "\<not> json_ws 0x66"
  by (simp_all add: json_ws_def)

lemma member_key_Quote: "member_key (QuoteJSONString k @ 0x3A # r) = Some (k, r)"
  by (simp add: member_key_def QuoteJSONString_def skip_ws_keep string_body_quote_units)

lemma parse_atom_string: "parse_atom (QuoteJSONString s @ r) = Parsed (JString s) r"
  by (simp add: parse_atom_def QuoteJSONString_def string_body_quote_units)

lemma lit_true: "lit ''true'' = [0x74, 0x72, 0x75, 0x65]"
  by (simp add: lit_def)

lemma lit_false: "lit ''false'' = [0x66, 0x61, 0x6C, 0x73, 0x65]"
  by (simp add: lit_def)

lemma parse_atom_bool:
  "parse_atom (JSON_stringify (JBool b) @ r) = Parsed (JBool b) r"
  by (cases b) (simp_all add: parse_atom_def lit_true lit_false strip_prefix_def is_digit_def)

lemma parse_value_atom:
  "c \<noteq> 0x5B \<Longrightarrow> c \<noteq> 0x7B \<Longrightarrow> \<not> json_ws c \<Longrightarrow> parse_value (Suc n) (c # r) = parse_atom (c # r)"
  by (simp add: skip_ws_keep)

lemma parse_value_string: "parse_value (Suc n) (QuoteJSONString s @ r) = Parsed (JString s) r"
proof -
  have "parse_value (Suc n) (QuoteJSONString s @ r) = parse_atom (QuoteJSONString s @ r)"
    unfolding QuoteJSONString_def append.simps by (rule parse_value_atom) simp_all
  then show ?thesis by (simp only: parse_atom_string)
qed

lemma parse_value_bool: "parse_value (Suc n) (JSON_stringify (JBool b) @ r) = Parsed (JBool b) r"
proof -
  have "parse_value (Suc n) (JSON_stringify (JBool b) @ r) = parse_atom (JSON_stringify (JBool b) @ r)"
    by (cases b) (simp_all add: lit_true lit_false parse_value_atom del: parse_value.simps)
  then show ?thesis by (simp only: parse_atom_bool)
qed

lemma parse_value_object:
  "parse_value (Suc n) (0x7B # QuoteJSONString k @ r)
     = map_parsed object_of (parse_members n (QuoteJSONString k @ r))"
  by (simp add: QuoteJSONString_def skip_ws_keep)

lemma separator_simps:
  "separator c (0x2C # r) = Next r"
  "c \<noteq> 0x2C \<Longrightarrow> \<not> json_ws c \<Longrightarrow> separator c (c # r) = Last r"
  by (simp_all add: separator_def skip_ws_keep)

lemma parse_members_next:
  assumes "parse_value n (sv @ 0x2C # r) = Parsed v (0x2C # r)"
  shows "parse_members (Suc n) (QuoteJSONString k @ 0x3A # sv @ 0x2C # r)
           = map_parsed ((#) (k, v)) (parse_members n r)"
  using assms by (simp add: member_key_Quote separator_simps)

lemma parse_members_last:
  assumes "parse_value n (sv @ 0x7D # r) = Parsed v (0x7D # r)"
  shows "parse_members (Suc n) (QuoteJSONString k @ 0x3A # sv @ 0x7D # r) = Parsed [(k, v)] r"
  using assms by (simp add: member_key_Quote separator_simps)

declare parse_value.simps [simp del] parse_elements.simps [simp del] parse_members.simps [simp del]

lemma key_literals:
  "lit ''id'' = [0x69, 0x64]"
  "lit ''description'' = [0x64, 0x65, 0x73, 0x63, 0x72, 0x69, 0x70, 0x74, 0x69, 0x6F, 0x6E]"
  "lit ''completed'' = [0x63, 0x6F, 0x6D, 0x70, 0x6C, 0x65, 0x74, 0x65, 0x64]"
  by (simp_all add: lit_def)

lemma object_of_task:
  "object_of [(lit ''id'', JString i), (lit ''description'', JString d), (lit ''completed'', JBool c)]
     = task_object \<lparr>id' = i, description = d, completed = c\<rparr>"
  by (simp add: object_of_def task_object_def CreateDataProperty_def key_literals
      is_array_index_def is_digit_def)

lemma JSON_stringify_task:
  "JSON_stringify (task_object t) @ r =
     0x7B # QuoteJSONString (lit ''id'') @ 0x3A # QuoteJSONString (id' t) @ 0x2C #
       QuoteJSONString (lit ''description'') @ 0x3A # QuoteJSONString (description t) @ 0x2C #
       QuoteJSONString (lit ''completed'') @ 0x3A # JSON_stringify (JBool (completed t)) @ 0x7D # r"
  by (simp add: task_object_def)

lemma parse_value_task:
  "parse_value (Suc (Suc (Suc (Suc (Suc n))))) (JSON_stringify (task_object t) @ r)
     = Parsed (task_object t) r"
proof -
  have 3: "parse_members (Suc (Suc n))
      (QuoteJSONString (lit ''completed'') @ 0x3A # JSON_stringify (JBool (completed t)) @ 0x7D # r)
      = Parsed [(lit ''completed'', JBool (completed t))] r"
    by (rule parse_members_last) (rule parse_value_bool)
  have 2: "parse_members (Suc (Suc (Suc n)))
      (QuoteJSONString (lit ''description'') @ 0x3A # QuoteJSONString (description t) @ 0x2C #
       QuoteJSONString (lit ''completed'') @ 0x3A # JSON_stringify (JBool (completed t)) @ 0x7D # r)
      = Parsed [(lit ''description'', JString (description t)),
                (lit ''completed'', JBool (completed t))] r"
    by (subst parse_members_next [OF parse_value_string])
       (simp only: 3 map_parsed_def parsed.case)
  have 1: "parse_members (Suc (Suc (Suc (Suc n))))
      (QuoteJSONString (lit ''id'') @ 0x3A # QuoteJSONString (id' t) @ 0x2C #
       QuoteJSONString (lit ''description'') @ 0x3A # QuoteJSONString (description t) @ 0x2C #
       QuoteJSONString (lit ''completed'') @ 0x3A # JSON_stringify (JBool (completed t)) @ 0x7D # r)
      = Parsed [(lit ''id'', JString (id' t)), (lit ''description'', JString (description t)),
                (lit ''completed'', JBool (completed t))] r"
    by (subst parse_members_next [OF parse_value_string])
       (simp only: 2 map_parsed_def parsed.case)
  show ?thesis
    unfolding JSON_stringify_task
    by (simp only: parse_value_object 1 map_parsed_def parsed.case object_of_task)
       (simp add: task_object_def)
qed

lemma JSON_stringify_nonempty: "JSON_stringify (task_object t) \<noteq> []"
  by (simp add: task_object_def)

lemma parse_value_task_0x7B:
  "\<exists>u. JSON_stringify (task_object t) = 0x7B # u"
  by (simp add: task_object_def)

lemma parse_elements_tasks:
  "ts \<noteq> [] \<Longrightarrow>
   parse_elements (Suc (Suc (Suc (Suc (Suc (length ts + n))))))
     (join [0x2C] (map (\<lambda>t. JSON_stringify (task_object t)) ts) @ 0x5D # r)
     = Parsed (map task_object ts) r"
proof (induction ts)
  case Nil
  then show ?case by simp
next
  case (Cons t ts)
  show ?case
  proof (cases ts)
    case Nil
    have "parse_value (Suc (Suc (Suc (Suc (Suc n))))) (JSON_stringify (task_object t) @ 0x5D # r)
        = Parsed (task_object t) (0x5D # r)"
      by (rule parse_value_task)
    then show ?thesis using Nil
      by (simp add: parse_elements.simps separator_simps)
  next
    case (Cons t' ts')
    have v: "parse_value (Suc (Suc (Suc (Suc (Suc (length ts + n))))))
        (JSON_stringify (task_object t) @ 0x2C # join [0x2C] (map (\<lambda>t. JSON_stringify (task_object t)) ts) @ 0x5D # r)
        = Parsed (task_object t)
           (0x2C # join [0x2C] (map (\<lambda>t. JSON_stringify (task_object t)) ts) @ 0x5D # r)"
      by (rule parse_value_task)
    have ih: "parse_elements (Suc (Suc (Suc (Suc (Suc (length ts + n))))))
        (join [0x2C] (map (\<lambda>t. JSON_stringify (task_object t)) ts) @ 0x5D # r)
        = Parsed (map task_object ts) r"
      using Cons.IH Cons by simp
    show ?thesis using v ih Cons
      by (simp add: parse_elements.simps separator_simps map_parsed_def)
  qed
qed

lemma parse_value_tasks:
  "parse_value (Suc (Suc (Suc (Suc (Suc (Suc (length ts + n)))))))
     (JSON_stringify (JArray (map task_object ts)) @ r)
     = Parsed (JArray (map task_object ts)) r"
proof (cases ts)
  case Nil
  then show ?thesis by (simp add: parse_value.simps skip_ws_keep)
next
  case (Cons t ts')
  obtain u where u: "JSON_stringify (task_object t) = 0x7B # u"
    using parse_value_task_0x7B by blast
  have e: "parse_elements (Suc (Suc (Suc (Suc (Suc (length ts + n))))))
       (join [0x2C] (map (\<lambda>t. JSON_stringify (task_object t)) ts) @ 0x5D # r)
       = Parsed (map task_object ts) r"
    using parse_elements_tasks [of ts n r] Cons by simp
  have j: "\<exists>u'. join [0x2C] (map (\<lambda>t. JSON_stringify (task_object t)) ts) @ 0x5D # r = 0x7B # u'"
    using Cons u by (cases ts') simp_all
  then obtain u' where u': "join [0x2C] (map (\<lambda>t. JSON_stringify (task_object t)) ts) @ 0x5D # r = 0x7B # u'"
    by blast
  show ?thesis
    using e u' by (simp add: parse_value.simps skip_ws_keep map_parsed_def comp_def)
qed

lemma length_join_tasks:
  "length ts \<le> length (join [0x2C] (map (\<lambda>t. JSON_stringify (task_object t)) ts))"
proof (induction ts)
  case Nil
  show ?case by simp
next
  case (Cons t ts)
  have "1 \<le> length (JSON_stringify (task_object t))"
    using JSON_stringify_nonempty [of t] by (cases "JSON_stringify (task_object t)") simp_all
  then show ?case using Cons by (cases ts) simp_all
qed

lemma JSON_round_trip_tasks:
  "JSON_parse (JSON_stringify (JArray (map task_object ts))) = Inr (JArray (map task_object ts))"
proof -
  let ?s = "JSON_stringify (JArray (map task_object ts))"
  have "length ts + 6 \<le> 2 * length ?s + 2"
    using length_join_tasks [of ts] by (simp add: comp_def)
  then obtain n where n: "2 * length ?s + 2 = length ts + 6 + n"
    using le_Suc_ex by blast
  have "length ts + 6 + n = Suc (Suc (Suc (Suc (Suc (Suc (length ts + n))))))"
    by simp
  then have "parse_value (2 * length ?s + 2) (?s @ []) = Parsed (JArray (map task_object ts)) []"
    unfolding n by (simp only: parse_value_tasks)
  then show ?thesis
    by (simp add: JSON_parse_def skip_ws_def del: JSON_stringify.simps)
qed

subsection \<open>The parser consumes input and never reaches its bound\<close>

lemmas parse_numeral =
  parse_value.simps(2) [where n = "pred_numeral k" for k, folded numeral_eq_Suc]
  parse_elements.simps(2) [where n = "pred_numeral k" for k, folded numeral_eq_Suc]
  parse_members.simps(2) [where n = "pred_numeral k" for k, folded numeral_eq_Suc]

lemmas parse_eval = JSON_parse_def lit_def parse_numeral parse_value.simps(1) parse_elements.simps(1)
  parse_members.simps(1) skip_ws_def json_ws_def separator_def map_parsed_def parse_atom_def
  member_key_def object_of_def

lemma parse_examples:
  "JSON_parse (lit ''[{}]'') = Inr (JArray [JObject []])"
  "JSON_parse (lit ''{}'') = Inr (JObject [])"
  "JSON_parse (lit ''{'') = Inl SyntaxError"
  by (simp_all add: parse_eval)

lemma length_skip_ws: "length (skip_ws s) \<le> length s"
  by (simp add: skip_ws_def length_dropWhile_le)

lemma skip_ws_Cons: "skip_ws s = c # r \<Longrightarrow> length r < length s"
  using length_skip_ws [of s] by simp

lemma cons_unit_eq_Some:
  "cons_unit c p = Some (x, r) \<Longrightarrow> \<exists>y. p = Some (y, r)"
  by (cases p) (auto simp: cons_unit_def)

lemma string_body_length: "string_body s = Some (x, r) \<Longrightarrow> length r < length s"
proof (induction "length s" arbitrary: s x r rule: less_induct)
  case less
  show ?case
  proof (cases s)
    case Nil
    then show ?thesis using less.prems by (simp add: string_body.simps)
  next
    case (Cons c cs)
    consider (quote) "c = 0x22" | (esc) "c \<noteq> 0x22" "c = 0x5C" | (ctl) "c \<noteq> 0x22" "c \<noteq> 0x5C" "c < 0x20"
      | (plain) "c \<noteq> 0x22" "c \<noteq> 0x5C" "\<not> c < 0x20" by blast
    then show ?thesis
    proof cases
      case quote
      then show ?thesis using less.prems Cons by (simp add: string_body.simps)
    next
      case ctl
      then show ?thesis using less.prems Cons by (simp add: string_body.simps)
    next
      case plain
      then have "cons_unit c (string_body cs) = Some (x, r)"
        using less.prems Cons by (simp add: string_body.simps)
      then obtain y where "string_body cs = Some (y, r)" using cons_unit_eq_Some by blast
      then have "length r < length cs" using less.hyps [of cs y r] Cons by simp
      then show ?thesis using Cons by simp
    next
      case esc
      show ?thesis
      proof (cases cs)
        case Nil
        then show ?thesis using less.prems Cons esc by (simp add: string_body.simps)
      next
        case (Cons e r1)
        note cs = this
        show ?thesis
        proof (cases "e = 0x75")
          case False
          then obtain u where "cons_unit u (string_body r1) = Some (x, r)"
            using less.prems \<open>s = c # cs\<close> cs esc
            by (auto simp: string_body.simps split: option.splits)
          then obtain y where "string_body r1 = Some (y, r)" using cons_unit_eq_Some by blast
          then have "length r < length r1" using less.hyps [of r1 y r] \<open>s = c # cs\<close> cs by simp
          then show ?thesis using \<open>s = c # cs\<close> cs by simp
        next
          case True
          then obtain h1 h2 h3 h4 r2 u where r1: "r1 = h1 # h2 # h3 # h4 # r2"
            and "cons_unit u (string_body r2) = Some (x, r)"
            using less.prems \<open>s = c # cs\<close> cs esc
            by (auto simp: string_body.simps split: option.splits list.splits)
          then obtain y where "string_body r2 = Some (y, r)" using cons_unit_eq_Some by blast
          then have "length r < length r2"
            using less.hyps [of r2 y r] \<open>s = c # cs\<close> cs r1 by simp
          then show ?thesis using \<open>s = c # cs\<close> cs r1 by simp
        qed
      qed
    qed
  qed
qed

lemma lex_digits_length: "lex_digits s = Some (ds, r) \<Longrightarrow> length r < length s"
proof -
  assume a: "lex_digits s = Some (ds, r)"
  then have "takeWhile is_digit s \<noteq> []" and r: "r = dropWhile is_digit s"
    by (auto simp: lex_digits_def split: if_splits)
  then have "length (takeWhile is_digit s) > 0" by simp
  moreover have "length (takeWhile is_digit s) + length (dropWhile is_digit s) = length s"
    by (metis length_append takeWhile_dropWhile_id)
  ultimately have "length (dropWhile is_digit s) < length s" by linarith
  then show ?thesis using r by simp
qed

lemma lex_int_length: "lex_int s = Some (ds, r) \<Longrightarrow> length r < length s"
  by (auto simp: lex_int_def split: option.splits if_splits dest: lex_digits_length)

lemma lex_frac_length: "lex_frac s = Some (ds, r) \<Longrightarrow> length r \<le> length s"
  by (cases s) (auto simp: lex_frac_def split: if_splits dest!: lex_digits_length)

lemma lex_sign_length: "lex_sign s = (sg, r) \<Longrightarrow> length r \<le> length s"
  by (cases s) (auto simp: lex_sign_def split: if_splits)

lemma lex_exp_length: "lex_exp s = Some (ds, r) \<Longrightarrow> length r \<le> length s"
  by (cases s) (auto simp: lex_exp_def split: if_splits prod.splits
      dest!: lex_digits_length lex_sign_length)

lemma lex_minus_length: "lex_minus s = (m, r) \<Longrightarrow> length r \<le> length s"
  by (cases s) (auto simp: lex_minus_def split: if_splits)

lemma lex_number_length: "lex_number s = Some (l, r) \<Longrightarrow> length r < length s"
  by (auto simp: lex_number_def split: prod.splits option.splits
      dest!: lex_minus_length lex_int_length lex_frac_length lex_exp_length)

lemma strip_prefix_length: "strip_prefix p s = Some r \<Longrightarrow> p \<noteq> [] \<Longrightarrow> length r < length s"
proof -
  assume a: "strip_prefix p s = Some r" and p: "p \<noteq> []"
  then have t: "take (length p) s = p" and r: "r = drop (length p) s"
    by (auto simp: strip_prefix_def split: if_splits)
  have "length p \<le> length s" using t by (metis length_take min.cobounded1)
  then show ?thesis using r p by (cases p) auto
qed

lemma literal_nonempty: "lit ''true'' \<noteq> []" "lit ''false'' \<noteq> []" "lit ''null'' \<noteq> []"
  by (simp_all add: lit_def)

lemma parse_atom_length: "parse_atom s = Parsed v r \<Longrightarrow> length r < length s"
  by (cases s)
     (auto simp: parse_atom_def literal_nonempty split: if_splits option.splits
        dest!: string_body_length lex_number_length dest: strip_prefix_length)

lemma separator_length:
  "separator c s = Next r \<Longrightarrow> length r < length s"
  "separator c s = Last r \<Longrightarrow> length r < length s"
  by (auto simp: separator_def split: list.splits if_splits dest: skip_ws_Cons)

lemma member_key_length: "member_key s = Some (k, r) \<Longrightarrow> length r < length s"
  by (auto simp: member_key_def split: list.splits if_splits option.splits
      dest!: skip_ws_Cons string_body_length)

lemma parse_consumes:
  "parse_value n s = Parsed v r \<Longrightarrow> length r < length s"
  "parse_elements n s = Parsed vs r' \<Longrightarrow> length r' < length s"
  "parse_members n s = Parsed kvs r'' \<Longrightarrow> length r'' < length s"
proof (induction n arbitrary: s v r vs r' kvs r'')
  case 0
  {
    case 1 then show ?case by (simp add: parse_value.simps)
  next
    case 2 then show ?case by (simp add: parse_elements.simps)
  next
    case 3 then show ?case by (simp add: parse_members.simps)
  }
next
  case (Suc n)
  {
    case 1
    then show ?case
      using Suc.IH(2) Suc.IH(3)
      by (auto simp: parse_value.simps map_parsed_def
          split: list.splits if_splits parsed.splits
          dest!: skip_ws_Cons parse_atom_length)
         (fastforce dest: skip_ws_Cons)+
  next
    case 2
    then show ?case
      using Suc.IH(1) Suc.IH(2)
      by (auto simp: parse_elements.simps map_parsed_def
          split: parsed.splits separator.splits dest!: separator_length)
         fastforce+
  next
    case 3
    then show ?case
      using Suc.IH(1) Suc.IH(3)
      by (auto simp: parse_members.simps map_parsed_def
          split: parsed.splits separator.splits option.splits
          dest!: separator_length member_key_length)
         fastforce+
  }
qed

lemma map_parsed_Exhausted: "map_parsed f p = Exhausted \<longleftrightarrow> p = Exhausted"
  by (cases p) (simp_all add: map_parsed_def)

lemma parse_atom_not_Exhausted: "parse_atom s \<noteq> Exhausted"
  by (auto simp: parse_atom_def split: list.splits if_splits option.splits)

lemma parse_fuel:
  "2 * length s < n \<Longrightarrow> parse_value n s \<noteq> Exhausted"
  "2 * length s + 1 < n \<Longrightarrow> parse_elements n s \<noteq> Exhausted"
  "2 * length s + 1 < n \<Longrightarrow> parse_members n s \<noteq> Exhausted"
proof (induction n arbitrary: s)
  case 0
  {
    case 1 then show ?case by simp
  next
    case 2 then show ?case by simp
  next
    case 3 then show ?case by simp
  }
next
  case (Suc n)
  {
    case 1
    show ?case
    proof (cases "skip_ws s")
      case Nil
      then show ?thesis by (simp add: parse_value.simps)
    next
      case (Cons c r)
      then have lr: "length r < length s" by (rule skip_ws_Cons)
      show ?thesis
      proof (cases "skip_ws r")
        case Nil
        then show ?thesis using Cons
          by (simp add: parse_value.simps parse_atom_not_Exhausted)
      next
        case (Cons d r')
        then have "length r' < length r" by (rule skip_ws_Cons)
        then have "2 * length (d # r') + 1 < n" using lr 1 by simp
        then have "parse_elements n (d # r') \<noteq> Exhausted" "parse_members n (d # r') \<noteq> Exhausted"
          using Suc.IH(2) Suc.IH(3) by blast+
        then show ?thesis using Cons \<open>skip_ws s = c # r\<close>
          by (auto simp: parse_value.simps parse_atom_not_Exhausted map_parsed_Exhausted)
      qed
    qed
  next
    case 2
    have v: "parse_value n s \<noteq> Exhausted" using Suc.IH(1) [of s] 2 by simp
    show ?case
    proof (cases "parse_value n s")
      case (Parsed v r)
      then have lr: "length r < length s" by (rule parse_consumes(1))
      show ?thesis
      proof (cases "separator 0x5D r")
        case (Next r')
        then have "length r' < length r" by (rule separator_length(1))
        then have "parse_elements n r' \<noteq> Exhausted" using Suc.IH(2) [of r'] lr 2 by simp
        then show ?thesis using Parsed Next
          by (simp add: parse_elements.simps map_parsed_Exhausted)
      qed (simp_all add: parse_elements.simps Parsed)
    qed (use v in \<open>simp_all add: parse_elements.simps\<close>)
  next
    case 3
    show ?case
    proof (cases "member_key s")
      case None
      then show ?thesis by (simp add: parse_members.simps)
    next
      case (Some kr)
      obtain k r where kr: "kr = (k, r)" by (cases kr)
      then have lr: "length r < length s" using Some member_key_length by blast
      then have v: "parse_value n r \<noteq> Exhausted" using Suc.IH(1) [of r] 3 by simp
      show ?thesis
      proof (cases "parse_value n r")
        case (Parsed v r')
        then have lr': "length r' < length r" by (rule parse_consumes(1))
        show ?thesis
        proof (cases "separator 0x7D r'")
          case (Next r'')
          then have "length r'' < length r'" by (rule separator_length(1))
          then have "parse_members n r'' \<noteq> Exhausted" using Suc.IH(3) [of r''] lr lr' 3 by simp
          then show ?thesis using Parsed Next Some kr
            by (simp add: parse_members.simps map_parsed_Exhausted)
        qed (simp_all add: parse_members.simps Parsed Some kr)
      qed (use v Some kr in \<open>simp_all add: parse_members.simps\<close>)
    qed
  }
qed

lemma JSON_parse_never_Exhausted: "parse_value (2 * length s + 2) s \<noteq> Exhausted"
  by (rule parse_fuel(1)) simp

section \<open>The actions on lists of tasks\<close>

lemma property_task_id: "property (task_object t) (lit ''id'') = Inr (Some (JString (id' t)))"
  by (simp add: task_object_def key_literals)

lemma toggle_one_task:
  "toggle_one i (task_object t)
     = Inr (task_object (if id' t = i then t\<lparr>completed := \<not> completed t\<rparr> else t))"
  by (simp add: toggle_one_def task_object_def key_literals CreateDataProperty_def)

lemma keep_one_task: "keep_one i (task_object t) = Inr (id' t \<noteq> i)"
  by (simp add: keep_one_def property_task_id)

lemma map_array_toggle:
  "map_array (toggle_one i) (map task_object ts)
     = Inr (map task_object (map (\<lambda>t. if id' t = i then t\<lparr>completed := \<not> completed t\<rparr> else t) ts))"
  by (induction ts) (simp_all add: toggle_one_task)

lemma filter_array_keep:
  "filter_array (keep_one i) (map task_object ts)
     = Inr (map task_object (filter (\<lambda>t. id' t \<noteq> i) ts))"
  by (induction ts) (simp_all add: keep_one_task)

lemma toggle_twice_id:
  "map ((\<lambda>t. if id' t = i then t\<lparr>completed := \<not> completed t\<rparr> else t) \<circ>
        (\<lambda>t. if id' t = i then t\<lparr>completed := \<not> completed t\<rparr> else t)) ts = ts"
  by (induction ts) simp_all

lemma toggle_absent:
  "i \<notin> set (map id' ts) \<Longrightarrow>
   map (\<lambda>t. if id' t = i then t\<lparr>completed := \<not> completed t\<rparr> else t) ts = ts"
  by (induction ts) auto

lemma filter_absent: "i \<notin> set (map id' ts) \<Longrightarrow> filter (\<lambda>t. id' t \<noteq> i) ts = ts"
  by (induction ts) auto

subsection \<open>The storage\<close>

lemma setItem_result:
  "fst (setItem k v st) =
     (if access_denied st then Inl SecurityError
      else if quota_exceeded st then Inl QuotaExceededError else Inr ())"
  by (simp add: setItem_def)

lemma setItem_storage:
  "access_denied (snd (setItem k v st)) = access_denied st"
  "quota_exceeded (snd (setItem k v st)) = quota_exceeded st"
  "calls (snd (setItem k v st)) = calls st @ [SetItem k v]"
  "items (snd (setItem k v st)) =
     (if access_denied st \<or> quota_exceeded st then items st else (items st)(k \<mapsto> v))"
  by (simp_all add: setItem_def)

lemma getItem_simps:
  "fst (getItem k st) = (if access_denied st then Inl SecurityError else Inr (items st k))"
  "snd (getItem k st) = st\<lparr>calls := calls st @ [GetItem k]\<rparr>"
  by (simp_all add: getItem_def)

subsection \<open>set\<close>

lemma set'_store: "store (snd (set' f w)) = f (store w)"
  by (simp add: set'_def Let_def split: prod.splits)

lemma set'_timers: "timers (snd (set' f w)) = timers w"
  by (simp add: set'_def Let_def split: prod.splits)

lemma set'_result:
  "fst (set' f w) =
     (if \<not> access_denied (localStorage w) \<and> quota_exceeded (localStorage w)
      then Threw QuotaExceededError else Returned ())"
  by (simp add: set'_def setItem_def Let_def)

lemma set'_localStorage:
  "localStorage (snd (set' f w)) =
     (if access_denied (localStorage w) then localStorage w
      else snd (setItem persist_name (persist_item (f (store w))) (localStorage w)))"
  by (simp add: set'_def Let_def split: prod.splits)

lemma set'_flags:
  "access_denied (localStorage (snd (set' f w))) = access_denied (localStorage w)"
  "quota_exceeded (localStorage (snd (set' f w))) = quota_exceeded (localStorage w)"
  by (simp_all add: set'_localStorage setItem_storage)

lemma set'_calls:
  "calls (localStorage (snd (set' f w))) =
     (if access_denied (localStorage w) then calls (localStorage w)
      else calls (localStorage w) @ [SetItem persist_name (persist_item (f (store w)))])"
  by (simp add: set'_localStorage setItem_storage)

lemma set'_items:
  "items (localStorage (snd (set' f w))) =
     (if access_denied (localStorage w) \<or> quota_exceeded (localStorage w)
      then items (localStorage w)
      else (items (localStorage w))(persist_name \<mapsto> persist_item (f (store w))))"
  by (simp add: set'_localStorage setItem_storage)

lemma seq_Returned: "fst first = Returned u \<Longrightarrow> seq first rest = rest (snd first)"
  by (simp add: seq_def)

lemma seq_Threw: "fst first = Threw e \<Longrightarrow> seq first rest = (Threw e, snd first)"
  by (simp add: seq_def)

lemma seq_set':
  "seq (set' f w) rest =
     (if \<not> access_denied (localStorage w) \<and> quota_exceeded (localStorage w)
      then (Threw QuotaExceededError, snd (set' f w)) else rest (snd (set' f w)))"
  by (simp add: seq_def set'_result)

subsection \<open>add_new_task\<close>

lemma too_long_message:
  "lit ''Task is too long (max '' @ toString 256 @ lit '' characters).''
     = lit ''Task is too long (max 256 characters).''"
  by (simp add: toString_def digits_of.simps lit_def)

lemma add_new_task_valid:
  assumes "trim (task_input_description (store w)) \<noteq> []"
    and "length (trim (task_input_description (store w))) \<le> 256"
  shows "add_new_task now w =
     seq (set' (\<lambda>s. s\<lparr>tasks_list := tasks_list (store w) @
                       [task_object \<lparr>id' = toString now,
                          description = trim (task_input_description (store w)),
                          completed = False\<rparr>],
                     task_input_description := [], has_persisted_data := True\<rparr>) w)
       (\<lambda>w1. (case fst (setItem LOCAL_STORAGE_KEY
                          (JSON_stringify (JArray (tasks_list (store w) @
                             [task_object \<lparr>id' = toString now,
                                description = trim (task_input_description (store w)),
                                completed = False\<rparr>])))
                          (localStorage w1)) of
                 Inl e \<Rightarrow> Threw e | Inr u \<Rightarrow> Returned True,
               w1\<lparr>localStorage := snd (setItem LOCAL_STORAGE_KEY
                          (JSON_stringify (JArray (tasks_list (store w) @
                             [task_object \<lparr>id' = toString now,
                                description = trim (task_input_description (store w)),
                                completed = False\<rparr>])))
                          (localStorage w1))\<rparr>))"
  using assms
  by (simp add: add_new_task_def TASK_DESCRIPTION_MAX_LENGTH_def Let_def split_beta
      del: JSON_stringify.simps)

lemma add_new_task_valid_store:
  assumes "trim (task_input_description (store w)) \<noteq> []"
    and "length (trim (task_input_description (store w))) \<le> 256"
  shows "store (snd (add_new_task now w)) =
     (store w)\<lparr>tasks_list := tasks_list (store w) @
                  [task_object \<lparr>id' = toString now,
                     description = trim (task_input_description (store w)),
                     completed = False\<rparr>],
               task_input_description := [], has_persisted_data := True\<rparr>"
  by (simp add: add_new_task_valid [OF assms] seq_set' set'_store del: JSON_stringify.simps)

lemma add_new_task_valid_result:
  assumes "trim (task_input_description (store w)) \<noteq> []"
    and "length (trim (task_input_description (store w))) \<le> 256"
  shows "fst (add_new_task now w) =
     (if access_denied (localStorage w) then Threw SecurityError
      else if quota_exceeded (localStorage w) then Threw QuotaExceededError
      else Returned True)"
  by (simp add: add_new_task_valid [OF assms] seq_set' setItem_result set'_flags
      del: JSON_stringify.simps)

lemma add_new_task_valid_timers:
  assumes "trim (task_input_description (store w)) \<noteq> []"
    and "length (trim (task_input_description (store w))) \<le> 256"
  shows "timers (snd (add_new_task now w)) = timers w"
  by (simp add: add_new_task_valid [OF assms] seq_set' set'_timers del: JSON_stringify.simps)

lemma add_new_task_valid_storage:
  assumes "trim (task_input_description (store w)) \<noteq> []"
    and "length (trim (task_input_description (store w))) \<le> 256"
    and "\<not> access_denied (localStorage w)" and "\<not> quota_exceeded (localStorage w)"
  shows "localStorage (snd (add_new_task now w)) =
     snd (setItem LOCAL_STORAGE_KEY
            (JSON_stringify (JArray (tasks_list (store (snd (add_new_task now w))))))
            (snd (setItem persist_name (persist_item (store (snd (add_new_task now w))))
                    (localStorage w))))"
  using assms(3,4)
  by (simp add: add_new_task_valid_store [OF assms(1,2)] add_new_task_valid [OF assms(1,2)]
      seq_set' set'_localStorage set'_store del: JSON_stringify.simps)

lemma add_new_task_empty:
  assumes "trim (task_input_description (store w)) = []"
  shows "add_new_task now w =
     seq (set' (\<lambda>s. s\<lparr>error_message := Some (lit ''Task cannot be empty.'')\<rparr>) w)
       (\<lambda>w1. (Returned False, w1\<lparr>timers := timers w1 @ [(3000, Call_clear_error_message)]\<rparr>))"
  using assms by (simp add: add_new_task_def)

lemma add_new_task_too_long:
  assumes "length (trim (task_input_description (store w))) > 256"
  shows "add_new_task now w =
     seq (set' (\<lambda>s. s\<lparr>error_message := Some (lit ''Task is too long (max 256 characters).'')\<rparr>) w)
       (\<lambda>w1. (Returned False, w1\<lparr>timers := timers w1 @ [(3000, Call_clear_error_message)]\<rparr>))"
proof -
  have "trim (task_input_description (store w)) \<noteq> []" using assms by auto
  then show ?thesis using assms
    by (simp add: add_new_task_def too_long_message Let_def TASK_DESCRIPTION_MAX_LENGTH_def)
qed

lemma add_new_task_rejected_store:
  "trim (task_input_description (store w)) = [] \<or>
   256 < length (trim (task_input_description (store w))) \<Longrightarrow>
   tasks_list (store (snd (add_new_task now w))) = tasks_list (store w)"
  by (auto simp: add_new_task_empty add_new_task_too_long seq_set' set'_store)

lemma add_new_task_True_valid:
  "fst (add_new_task now w) = Returned True \<Longrightarrow>
     trim (task_input_description (store w)) \<noteq> []
     \<and> length (trim (task_input_description (store w))) \<le> 256"
  by (rule ccontr) (auto simp: add_new_task_empty add_new_task_too_long seq_set' not_le
      split: if_splits)

lemma add_new_task_True_storage:
  "fst (add_new_task now w) = Returned True \<Longrightarrow>
     \<not> access_denied (localStorage w) \<and> \<not> quota_exceeded (localStorage w)"
  using add_new_task_True_valid [of now w] add_new_task_valid_result [of w now]
  by (auto split: if_splits)

subsection \<open>toggle_task_completion and delete_task\<close>

lemma toggle_task_completion_tasks:
  assumes "tasks_list (store w) = map task_object ts"
  shows "toggle_task_completion i w =
     seq (set' (\<lambda>s. s\<lparr>tasks_list := map task_object
                  (map (\<lambda>t. if id' t = i then t\<lparr>completed := \<not> completed t\<rparr> else t) ts)\<rparr>) w)
       (\<lambda>w1. (case fst (setItem LOCAL_STORAGE_KEY
                  (JSON_stringify (JArray (map task_object
                     (map (\<lambda>t. if id' t = i then t\<lparr>completed := \<not> completed t\<rparr> else t) ts))))
                  (localStorage w1)) of
                 Inl e \<Rightarrow> Threw e | Inr u \<Rightarrow> Returned (),
               w1\<lparr>localStorage := snd (setItem LOCAL_STORAGE_KEY
                  (JSON_stringify (JArray (map task_object
                     (map (\<lambda>t. if id' t = i then t\<lparr>completed := \<not> completed t\<rparr> else t) ts))))
                  (localStorage w1))\<rparr>))"
  using assms
  by (simp add: toggle_task_completion_def map_array_toggle Let_def split_beta
      del: JSON_stringify.simps)

lemma delete_task_tasks:
  assumes "tasks_list (store w) = map task_object ts"
  shows "delete_task i w =
     seq (set' (\<lambda>s. s\<lparr>tasks_list := map task_object (filter (\<lambda>t. id' t \<noteq> i) ts),
                     has_persisted_data := (filter (\<lambda>t. id' t \<noteq> i) ts \<noteq> [])\<rparr>) w)
       (\<lambda>w1. (case fst (setItem LOCAL_STORAGE_KEY
                  (JSON_stringify (JArray (map task_object (filter (\<lambda>t. id' t \<noteq> i) ts))))
                  (localStorage w1)) of
                 Inl e \<Rightarrow> Threw e | Inr u \<Rightarrow> Returned (),
               w1\<lparr>localStorage := snd (setItem LOCAL_STORAGE_KEY
                  (JSON_stringify (JArray (map task_object (filter (\<lambda>t. id' t \<noteq> i) ts))))
                  (localStorage w1))\<rparr>))"
  using assms
  by (simp add: delete_task_def filter_array_keep Let_def split_beta
      del: JSON_stringify.simps)

lemma store_after_toggle:
  "tasks_list (store w) = map task_object ts \<Longrightarrow>
   store (snd (toggle_task_completion i w))
     = (store w)\<lparr>tasks_list := map task_object
          (map (\<lambda>t. if id' t = i then t\<lparr>completed := \<not> completed t\<rparr> else t) ts)\<rparr>"
  by (simp add: toggle_task_completion_tasks seq_set' set'_store del: JSON_stringify.simps)

lemma store_after_delete:
  "tasks_list (store w) = map task_object ts \<Longrightarrow>
   store (snd (delete_task i w))
     = (store w)\<lparr>tasks_list := map task_object (filter (\<lambda>t. id' t \<noteq> i) ts),
                 has_persisted_data := (filter (\<lambda>t. id' t \<noteq> i) ts \<noteq> [])\<rparr>"
  by (simp add: delete_task_tasks seq_set' set'_store del: JSON_stringify.simps)

lemma tasks_after_toggle:
  "tasks_list (store w) = map task_object ts \<Longrightarrow>
   tasks_list (store (snd (toggle_task_completion i w)))
     = map task_object (map (\<lambda>t. if id' t = i then t\<lparr>completed := \<not> completed t\<rparr> else t) ts)"
  by (simp add: store_after_toggle)

lemma tasks_after_delete:
  "tasks_list (store w) = map task_object ts \<Longrightarrow>
   tasks_list (store (snd (delete_task i w))) = map task_object (filter (\<lambda>t. id' t \<noteq> i) ts)"
  by (simp add: store_after_delete)

lemma persisted_after_delete:
  "tasks_list (store w) = map task_object ts \<Longrightarrow>
   has_persisted_data (store (snd (delete_task i w))) = (filter (\<lambda>t. id' t \<noteq> i) ts \<noteq> [])"
  by (simp add: store_after_delete)

lemma toggle_result:
  "tasks_list (store w) = map task_object ts \<Longrightarrow>
   fst (toggle_task_completion i w) =
     (if access_denied (localStorage w) then Threw SecurityError
      else if quota_exceeded (localStorage w) then Threw QuotaExceededError
      else Returned ())"
  by (simp add: toggle_task_completion_tasks seq_set' setItem_result set'_flags
      del: JSON_stringify.simps)

lemma delete_result:
  "tasks_list (store w) = map task_object ts \<Longrightarrow>
   fst (delete_task i w) =
     (if access_denied (localStorage w) then Threw SecurityError
      else if quota_exceeded (localStorage w) then Threw QuotaExceededError
      else Returned ())"
  by (simp add: delete_task_tasks seq_set' setItem_result set'_flags
      del: JSON_stringify.simps)

lemma toggle_storage:
  assumes "tasks_list (store w) = map task_object ts"
    and "\<not> access_denied (localStorage w)" and "\<not> quota_exceeded (localStorage w)"
  shows "localStorage (snd (toggle_task_completion i w)) =
     snd (setItem LOCAL_STORAGE_KEY
            (JSON_stringify (JArray (tasks_list (store (snd (toggle_task_completion i w))))))
            (snd (setItem persist_name (persist_item (store (snd (toggle_task_completion i w))))
                    (localStorage w))))"
  using assms(2,3)
  by (simp add: store_after_toggle [OF assms(1)] toggle_task_completion_tasks [OF assms(1)]
      seq_set' set'_localStorage set'_store del: JSON_stringify.simps)

lemma delete_storage:
  assumes "tasks_list (store w) = map task_object ts"
    and "\<not> access_denied (localStorage w)" and "\<not> quota_exceeded (localStorage w)"
  shows "localStorage (snd (delete_task i w)) =
     snd (setItem LOCAL_STORAGE_KEY
            (JSON_stringify (JArray (tasks_list (store (snd (delete_task i w))))))
            (snd (setItem persist_name (persist_item (store (snd (delete_task i w))))
                    (localStorage w))))"
  using assms(2,3)
  by (simp add: store_after_delete [OF assms(1)] delete_task_tasks [OF assms(1)]
      seq_set' set'_localStorage set'_store del: JSON_stringify.simps)

lemma add_new_task_valid_tasks:
  assumes "trim (task_input_description (store w)) \<noteq> []"
    and "length (trim (task_input_description (store w))) \<le> 256"
  shows "tasks_list (store (snd (add_new_task now w))) =
     tasks_list (store w) @ [task_object \<lparr>id' = toString now,
        description = trim (task_input_description (store w)), completed = False\<rparr>]"
  by (simp add: add_new_task_valid_store [OF assms])

subsection \<open>load_tasks_from_local_storage\<close>

lemma names_differ: "persist_name \<noteq> LOCAL_STORAGE_KEY" "LOCAL_STORAGE_KEY \<noteq> persist_name"
  by (simp_all add: persist_name_def LOCAL_STORAGE_KEY_def lit_def)

lemma persist_item_transient:
  "persist_item (s\<lparr>is_loading_tasks := b\<rparr>) = persist_item s"
  "persist_item (s\<lparr>error_message := m\<rparr>) = persist_item s"
  "persist_item (s\<lparr>app_status := a\<rparr>) = persist_item s"
  "persist_item (s\<lparr>task_input_description := d\<rparr>) = persist_item s"
  by (simp_all add: persist_item_def partialize_def del: JSON_stringify.simps)

lemma load_attempt_working:
  assumes "\<not> access_denied (localStorage w)"
  shows "load_attempt w =
     (let w1 = w\<lparr>localStorage := (localStorage w)\<lparr>calls := calls (localStorage w)
                  @ [GetItem LOCAL_STORAGE_KEY]\<rparr>\<rparr>
      in case items (localStorage w) LOCAL_STORAGE_KEY of
           None \<Rightarrow> set' (\<lambda>s. s\<lparr>tasks_list := [], has_persisted_data := False\<rparr>) w1
         | Some text \<Rightarrow>
             if text = [] then set' (\<lambda>s. s\<lparr>tasks_list := [], has_persisted_data := False\<rparr>) w1
             else
               (case JSON_parse text of
                  Inl e \<Rightarrow> (Threw e, w1)
                | Inr parsed_tasks \<Rightarrow>
                    (case parsed_tasks of
                       JArray elements \<Rightarrow>
                         set' (\<lambda>s. s\<lparr>tasks_list := elements,
                                     has_persisted_data := (length elements > 0),
                                     app_status := initialized\<rparr>) w1
                     | _ \<Rightarrow>
                         set' (\<lambda>s. s\<lparr>tasks_list := [], app_status := error,
                                     error_message :=
                                       Some (lit ''Corrupted data in local storage.'')\<rparr>) w1)))"
  using assms by (simp add: load_attempt_def getItem_def Let_def)

lemma load_attempt_denied:
  assumes "access_denied (localStorage w)"
  shows "load_attempt w =
     (Threw SecurityError,
      w\<lparr>localStorage := (localStorage w)\<lparr>calls := calls (localStorage w)
           @ [GetItem LOCAL_STORAGE_KEY]\<rparr>\<rparr>)"
  using assms by (simp add: load_attempt_def getItem_def Let_def)

lemma load_denied:
  assumes "access_denied (localStorage w)"
  shows "load_tasks_from_local_storage w =
     (Returned (),
      w\<lparr>store := (store w)\<lparr>tasks_list := [], app_status := local_storage_unavailable,
                   error_message := Some storage_failure_message,
                   has_persisted_data := False, is_loading_tasks := False\<rparr>,
        localStorage := (localStorage w)\<lparr>calls := calls (localStorage w)
           @ [GetItem LOCAL_STORAGE_KEY]\<rparr>\<rparr>)"
  using assms
  by (simp add: load_tasks_from_local_storage_def seq_def set'_def load_attempt_denied Let_def)

lemma load_full:
  assumes "\<not> access_denied (localStorage w)" and "quota_exceeded (localStorage w)"
  shows "fst (load_tasks_from_local_storage w) = Threw QuotaExceededError"
    and "store (snd (load_tasks_from_local_storage w)) = (store w)\<lparr>is_loading_tasks := True\<rparr>"
  using assms
  by (simp_all add: load_tasks_from_local_storage_def seq_set' set'_store)

lemma load_working_result:
  assumes "\<not> access_denied (localStorage w)" and "\<not> quota_exceeded (localStorage w)"
  shows "fst (load_tasks_from_local_storage w) = Returned ()"
  using assms
  by (simp add: load_tasks_from_local_storage_def seq_set' split_beta Let_def
      load_attempt_working set'_flags set'_result
      split: option.splits sum.splits json.splits completion.splits)

lemma load_working_store:
  assumes "\<not> access_denied (localStorage w)" and "\<not> quota_exceeded (localStorage w)"
  shows "store (snd (load_tasks_from_local_storage w)) =
     (case items (localStorage w) LOCAL_STORAGE_KEY of
        None \<Rightarrow> (store w)\<lparr>tasks_list := [], has_persisted_data := False,
                   is_loading_tasks := False\<rparr>
      | Some text \<Rightarrow>
          if text = [] then (store w)\<lparr>tasks_list := [], has_persisted_data := False,
                              is_loading_tasks := False\<rparr>
          else
            (case JSON_parse text of
               Inl e \<Rightarrow>
                 (store w)\<lparr>tasks_list := [], app_status := local_storage_unavailable,
                   error_message := Some storage_failure_message,
                   has_persisted_data := False, is_loading_tasks := False\<rparr>
             | Inr parsed_tasks \<Rightarrow>
                 (case parsed_tasks of
                    JArray elements \<Rightarrow>
                      (store w)\<lparr>tasks_list := elements, has_persisted_data := (elements \<noteq> []),
                        app_status := initialized, is_loading_tasks := False\<rparr>
                  | _ \<Rightarrow>
                      (store w)\<lparr>tasks_list := [], app_status := error,
                        error_message := Some (lit ''Corrupted data in local storage.''),
                        is_loading_tasks := False\<rparr>)))"
  using assms
  by (simp add: load_tasks_from_local_storage_def seq_set' split_beta Let_def
      load_attempt_working set'_flags set'_result set'_store set'_items names_differ
      split: option.splits sum.splits json.splits completion.splits)

lemma load_working_calls:
  assumes "\<not> access_denied (localStorage w)" and "\<not> quota_exceeded (localStorage w)"
  shows "calls (localStorage (snd (load_tasks_from_local_storage w))) =
     calls (localStorage w) @
       [SetItem persist_name (persist_item (store w)),
        GetItem LOCAL_STORAGE_KEY,
        SetItem persist_name (persist_item (store (snd (load_tasks_from_local_storage w)))),
        SetItem persist_name (persist_item (store (snd (load_tasks_from_local_storage w))))]"
  using assms
  by (simp add: load_tasks_from_local_storage_def seq_set' split_beta Let_def
      load_attempt_working set'_flags set'_result set'_store set'_items set'_calls names_differ
      persist_item_transient
      split: option.splits sum.splits json.splits completion.splits)

lemma load_working_items:
  assumes "\<not> access_denied (localStorage w)" and "\<not> quota_exceeded (localStorage w)"
  shows "items (localStorage (snd (load_tasks_from_local_storage w))) =
     (items (localStorage w))(persist_name \<mapsto>
        persist_item (store (snd (load_tasks_from_local_storage w))))"
  using assms
  by (simp add: load_tasks_from_local_storage_def seq_set' split_beta Let_def
      load_attempt_working set'_flags set'_result set'_store set'_items names_differ
      persist_item_transient
      split: option.splits sum.splits json.splits completion.splits)

subsection \<open>set_task_input_description and the timer\<close>

lemma set_task_input_description_store:
  "store (snd (set_task_input_description d w)) =
     (if \<not> access_denied (localStorage w) \<and> quota_exceeded (localStorage w)
      then (store w)\<lparr>task_input_description := d\<rparr>
      else (case error_message (store w) of
              None \<Rightarrow> (store w)\<lparr>task_input_description := d\<rparr>
            | Some m \<Rightarrow>
                if m \<noteq> [] then (store w)\<lparr>task_input_description := d, error_message := None\<rparr>
                else (store w)\<lparr>task_input_description := d\<rparr>))"
  by (simp add: set_task_input_description_def clear_error_message_def seq_set' set'_store
      split: option.splits)

lemma set_task_input_description_tasks:
  "tasks_list (store (snd (set_task_input_description d w))) = tasks_list (store w)"
  by (simp add: set_task_input_description_store split: option.splits)

lemma set_task_input_description_quiet:
  "error_message (store w) = None \<Longrightarrow>
   store (snd (set_task_input_description d w)) = (store w)\<lparr>task_input_description := d\<rparr>"
  by (simp add: set_task_input_description_store)

lemma fire_clears:
  "error_message (store (snd (fire Call_clear_error_message w))) = None"
  by (simp add: clear_error_message_def set'_store)

subsection \<open>The worlds of the scenarios\<close>

lemma trim_examples:
  "trim (lit ''Buy milk'') = lit ''Buy milk''"
  "trim (lit ''a'') = lit ''a''"
  "trim (lit ''b'') = lit ''b''"
  "trim (lit ''   '') = []"
  "trim (replicate 257 0x61) = replicate 257 0x61"
  by (simp_all add: trim_def lit_def is_white_space_def)

lemma lit_nonempty: "lit ''Buy milk'' \<noteq> []" "lit ''a'' \<noteq> []" "lit ''b'' \<noteq> []"
  "length (lit ''Buy milk'') \<le> 256" "length (lit ''a'') \<le> 256" "length (lit ''b'') \<le> 256"
  by (simp_all add: lit_def)

lemma toString_example: "toString 1700000000000 = lit ''1700000000000''"
  by (simp add: toString_def digits_of.simps lit_def)

lemma store_world_of [simp]:
  "store (world_of s m) = s"
  "timers (world_of s m) = []"
  "items (localStorage (world_of s m)) = m"
  "access_denied (localStorage (world_of s m)) = False"
  "quota_exceeded (localStorage (world_of s m)) = False"
  "calls (localStorage (world_of s m)) = []"
  by (simp_all add: world_of_def empty_storage_def)

lemma initial_world_simps:
  "store initial_world = initial_state"
  "timers initial_world = []"
  "items (localStorage initial_world) = Map.empty"
  "access_denied (localStorage initial_world) = False"
  "quota_exceeded (localStorage initial_world) = False"
  "calls (localStorage initial_world) = []"
  by (simp_all add: initial_world_def empty_storage_def)

lemma scenario_A_simps:
  "store scenario_A = initial_state\<lparr>task_input_description := lit ''Buy milk''\<rparr>"
  "tasks_list (store scenario_A) = map task_object []"
  "trim (task_input_description (store scenario_A)) = lit ''Buy milk''"
  "access_denied (localStorage scenario_A) = False"
  "quota_exceeded (localStorage scenario_A) = False"
  "items (localStorage scenario_A) = Map.empty"
  "calls (localStorage scenario_A) = []"
  "timers scenario_A = []"
  by (simp_all add: scenario_A_def initial_state_def trim_examples)

lemma scenario_B_simps:
  "store scenario_B = initial_state\<lparr>tasks_list := [task_object task_X],
      has_persisted_data := True, is_loading_tasks := False\<rparr>"
  "tasks_list (store scenario_B) = map task_object [task_X]"
  "has_persisted_data (store scenario_B) = True"
  "access_denied (localStorage scenario_B) = False"
  "quota_exceeded (localStorage scenario_B) = False"
  "items (localStorage scenario_B) = Map.empty"
  "calls (localStorage scenario_B) = []"
  by (simp_all add: scenario_B_def)

lemma storage_fault_simps:
  "store (storage_full w) = store w"
  "store (storage_denied w) = store w"
  "timers (storage_full w) = timers w"
  "timers (storage_denied w) = timers w"
  "access_denied (localStorage (storage_full w)) = access_denied (localStorage w)"
  "quota_exceeded (localStorage (storage_full w)) = True"
  "access_denied (localStorage (storage_denied w)) = True"
  by (simp_all add: storage_full_def storage_denied_def)

lemma task_X_simps: "id' task_X = lit ''1''" "description task_X = lit ''X''" "completed task_X = False"
  by (simp_all add: task_X_def)

lemma id_literals: "lit ''1'' \<noteq> lit ''9''" "lit ''9'' \<noteq> lit ''1''"
  by (simp_all add: lit_def)

lemma new_calls_append:
  "calls (localStorage w') = calls (localStorage w) @ cs \<Longrightarrow> new_calls w w' = cs"
  by (simp add: new_calls_def)

lemma rejected_simps:
  "trim (task_input_description (store blank_input)) = []"
  "trim (task_input_description (store scenario_C)) = replicate 257 0x61"
  "length (trim (task_input_description (store scenario_C))) = 257"
  "tasks_list (store blank_input) = []"
  "tasks_list (store scenario_C) = []"
  "timers blank_input = []"
  "timers scenario_C = []"
  "access_denied (localStorage blank_input) = False"
  "access_denied (localStorage scenario_C) = False"
  "quota_exceeded (localStorage blank_input) = False"
  "quota_exceeded (localStorage scenario_C) = False"
  by (simp_all add: blank_input_def scenario_C_def trim_examples initial_state_def)

subsection \<open>Rejected input\<close>

lemma add_new_task_rejected:
  assumes "trim (task_input_description (store w)) = []
      \<or> length (trim (task_input_description (store w))) > 256"
  shows "fst (add_new_task now w) =
           (if \<not> access_denied (localStorage w) \<and> quota_exceeded (localStorage w)
            then Threw QuotaExceededError else Returned False)"
    and "timers (snd (add_new_task now w)) =
           (if \<not> access_denied (localStorage w) \<and> quota_exceeded (localStorage w)
            then timers w else timers w @ [(3000, Call_clear_error_message)])"
    and "error_message (store (snd (add_new_task now w))) =
           Some (if trim (task_input_description (store w)) = []
                 then lit ''Task cannot be empty.''
                 else lit ''Task is too long (max 256 characters).'')"
  using assms
  by (auto simp: add_new_task_empty add_new_task_too_long seq_set' set'_store set'_timers)

lemma add_new_task_rejects_when_set_returns:
  assumes "access_denied (localStorage w) \<or> \<not> quota_exceeded (localStorage w)"
  shows "((fst (add_new_task now w) = Returned False
       \<and> tasks_list (store (snd (add_new_task now w))) = tasks_list (store w))
     = (trim (task_input_description (store w)) = []
        \<or> length (trim (task_input_description (store w))) > 256))
   \<and> (trim (task_input_description (store w)) = [] \<longrightarrow>
        error_message (store (snd (add_new_task now w))) = Some (lit ''Task cannot be empty.'')
        \<and> timers (snd (add_new_task now w)) = timers w @ [(3000, Call_clear_error_message)])
   \<and> (length (trim (task_input_description (store w))) > 256 \<longrightarrow>
        error_message (store (snd (add_new_task now w)))
          = Some (lit ''Task is too long (max 256 characters).'')
        \<and> timers (snd (add_new_task now w)) = timers w @ [(3000, Call_clear_error_message)])
   \<and> error_message (store (snd (fire Call_clear_error_message (snd (add_new_task now w))))) = None"
proof -
  consider (rejected) "trim (task_input_description (store w)) = []
        \<or> length (trim (task_input_description (store w))) > 256"
    | (valid) "trim (task_input_description (store w)) \<noteq> []"
        "length (trim (task_input_description (store w))) \<le> 256"
    by fastforce
  then show ?thesis
  proof cases
    case rejected
    then show ?thesis
      using assms
      by (auto simp: add_new_task_rejected [OF rejected] add_new_task_rejected_store fire_clears
          simp del: fire.simps)
  next
    case valid
    then show ?thesis
      by (auto simp: add_new_task_valid_result [OF valid] fire_clears simp del: fire.simps)
  qed
qed

subsection \<open>What the actions write\<close>

lemma two_writes:
  assumes "localStorage w' = snd (setItem k2 v2 (snd (setItem k1 v1 (localStorage w))))"
    and "\<not> access_denied (localStorage w)" and "\<not> quota_exceeded (localStorage w)"
  shows "new_calls w w' = [SetItem k1 v1, SetItem k2 v2]"
    and "items (localStorage w') = (items (localStorage w))(k1 \<mapsto> v1, k2 \<mapsto> v2)"
  using assms(2,3) by (simp_all add: assms(1) new_calls_def setItem_storage)

lemma persist_item_layout:
  "persist_item s =
     JSON_stringify (JObject
       [(lit ''state'', JObject [(lit ''tasks_list'', JArray (tasks_list s)),
                                 (lit ''has_persisted_data'', JBool (has_persisted_data s))]),
        (lit ''version'', JNum (lit ''0''))])"
  by (simp only: persist_item_def partialize_def)

lemma scenario_A_valid:
  "trim (task_input_description (store scenario_A)) \<noteq> []"
  "length (trim (task_input_description (store scenario_A))) \<le> 256"
  by (simp_all add: scenario_A_simps trim_examples lit_nonempty)

lemma scenario_A_added:
  "store (snd (add_new_task 1700000000000 scenario_A)) =
     initial_state\<lparr>tasks_list := [task_object
        \<lparr>id' = lit ''1700000000000'', description = lit ''Buy milk'', completed = False\<rparr>],
      has_persisted_data := True\<rparr>"
  by (simp add: add_new_task_valid_store [OF scenario_A_valid] scenario_A_simps trim_examples
      toString_example initial_state_def)

subsection \<open>Loading in the worlds of the scenarios\<close>

lemma load_world_of:
  "store (snd (load_tasks_from_local_storage (world_of s m))) =
     (case m LOCAL_STORAGE_KEY of
        None \<Rightarrow> s\<lparr>tasks_list := [], has_persisted_data := False, is_loading_tasks := False\<rparr>
      | Some text \<Rightarrow>
          if text = [] then s\<lparr>tasks_list := [], has_persisted_data := False,
                              is_loading_tasks := False\<rparr>
          else
            (case JSON_parse text of
               Inl e \<Rightarrow>
                 s\<lparr>tasks_list := [], app_status := local_storage_unavailable,
                   error_message := Some storage_failure_message,
                   has_persisted_data := False, is_loading_tasks := False\<rparr>
             | Inr parsed_tasks \<Rightarrow>
                 (case parsed_tasks of
                    JArray elements \<Rightarrow>
                      s\<lparr>tasks_list := elements, has_persisted_data := (elements \<noteq> []),
                        app_status := initialized, is_loading_tasks := False\<rparr>
                  | _ \<Rightarrow>
                      s\<lparr>tasks_list := [], app_status := error,
                        error_message := Some (lit ''Corrupted data in local storage.''),
                        is_loading_tasks := False\<rparr>)))"
  by (simp add: load_working_store split: option.splits sum.splits json.splits)

subsection \<open>Reloading what was written\<close>

lemma JSON_stringify_array_nonempty: "JSON_stringify (JArray vs) \<noteq> []"
  by simp

lemma load_reads_tasks:
  assumes "\<not> access_denied (localStorage w)" and "\<not> quota_exceeded (localStorage w)"
    and "items (localStorage w) LOCAL_STORAGE_KEY
           = Some (JSON_stringify (JArray (map task_object ts)))"
  shows "tasks_list (store (snd (load_tasks_from_local_storage w))) = map task_object ts"
    and "fst (load_tasks_from_local_storage w) = Returned ()"
  using assms(3)
  by (simp_all add: load_working_store [OF assms(1,2)] load_working_result [OF assms(1,2)]
      JSON_round_trip_tasks JSON_stringify_array_nonempty del: JSON_stringify.simps)

lemma written_storage:
  assumes "st' = snd (setItem LOCAL_STORAGE_KEY v (snd (setItem persist_name p st)))"
    and "\<not> access_denied st" and "\<not> quota_exceeded st"
  shows "\<not> access_denied st'" and "\<not> quota_exceeded st'"
    and "items st' LOCAL_STORAGE_KEY = Some v"
  using assms(2,3) by (simp_all add: assms(1) setItem_storage)

lemma reload_written:
  assumes "localStorage w' = snd (setItem LOCAL_STORAGE_KEY
             (JSON_stringify (JArray (tasks_list (store w'))))
             (snd (setItem persist_name p st)))"
    and "\<not> access_denied st" and "\<not> quota_exceeded st"
    and "tasks_list (store w') = map task_object ts'"
  shows "fst (load_tasks_from_local_storage
            \<lparr>store = s, localStorage = localStorage w', timers = tm\<rparr>) = Returned ()"
    and "tasks_list (store (snd (load_tasks_from_local_storage
            \<lparr>store = s, localStorage = localStorage w', timers = tm\<rparr>))) = map task_object ts'"
proof -
  let ?f = "\<lparr>store = s, localStorage = localStorage w', timers = tm\<rparr>"
  note ws = written_storage [OF assms(1,2,3)]
  have a: "\<not> access_denied (localStorage ?f)" "\<not> quota_exceeded (localStorage ?f)"
    using ws(1,2) by simp_all
  have i: "items (localStorage ?f) LOCAL_STORAGE_KEY
      = Some (JSON_stringify (JArray (map task_object ts')))"
    using ws(3) by (simp only: World.select_convs assms(4))
  show "fst (load_tasks_from_local_storage ?f) = Returned ()"
    using a i by (rule load_reads_tasks(2))
  show "tasks_list (store (snd (load_tasks_from_local_storage ?f))) = map task_object ts'"
    using a i by (rule load_reads_tasks(1))
qed

lemma toggle_Returned_storage:
  "tasks_list (store w) = map task_object ts \<Longrightarrow> fst (toggle_task_completion i w) = Returned () \<Longrightarrow>
   \<not> access_denied (localStorage w) \<and> \<not> quota_exceeded (localStorage w)"
  by (auto simp: toggle_result split: if_splits)

lemma delete_Returned_storage:
  "tasks_list (store w) = map task_object ts \<Longrightarrow> fst (delete_task i w) = Returned () \<Longrightarrow>
   \<not> access_denied (localStorage w) \<and> \<not> quota_exceeded (localStorage w)"
  by (auto simp: delete_result split: if_splits)

subsection \<open>Ids stay distinct while the clock advances\<close>

text \<open>
  \<^verbatim>\<open>toString\<close> is injective on the integers, toggling and deleting introduce no id, and
  \<^verbatim>\<open>add_new_task\<close> introduces the decimal form of the clock reading. So a run from the
  empty store whose clock readings strictly increase from one \<^verbatim>\<open>add_new_task\<close> to the
  next keeps the ids in \<^verbatim>\<open>tasks_list\<close> pairwise distinct.
\<close>

lemma digit_unit: "d < 10 \<Longrightarrow> unat (of_nat (48 + d) :: 16 word) = 48 + d"
  by (rule unat_small) simp

lemma index_value_digits_of: "index_value (digits_of n) = n"
proof (induction n rule: digits_of.induct)
  case (1 n)
  show ?case
  proof (cases "n < 10")
    case True
    have "unat (of_nat (48 + n) :: 16 word) = 48 + n" using True by (rule digit_unit)
    then show ?thesis using True
      by (subst digits_of.simps) (simp add: index_value_def del: of_nat_add)
  next
    case False
    have u: "unat (of_nat (48 + n mod 10) :: 16 word) = 48 + n mod 10"
      by (rule digit_unit) simp
    have "index_value (digits_of (n div 10) @ [of_nat (48 + n mod 10)])
        = 10 * index_value (digits_of (n div 10)) + n mod 10"
      using u by (simp add: index_value_def del: of_nat_add)
    then show ?thesis using False 1
      by (subst digits_of.simps) (simp del: of_nat_add)
  qed
qed

lemma digits_of_inj: "digits_of m = digits_of n \<Longrightarrow> m = n"
  by (metis index_value_digits_of)

lemma digits_of_nonempty: "digits_of n \<noteq> []"
  by (subst digits_of.simps) simp

lemma hd_digits_of: "hd (digits_of n) \<noteq> 0x2D"
proof (induction n rule: digits_of.induct)
  case (1 n)
  show ?case
  proof (cases "n < 10")
    case True
    have "unat (of_nat (48 + n) :: 16 word) = 48 + n" using True by (rule digit_unit)
    then have "(of_nat (48 + n) :: 16 word) \<noteq> 0x2D"
      by (auto simp del: of_nat_add)
    then show ?thesis using True by (subst digits_of.simps) (simp del: of_nat_add)
  next
    case False
    then show ?thesis using 1 digits_of_nonempty [of "n div 10"]
      by (subst digits_of.simps) simp
  qed
qed

lemma toString_inj: "toString i = toString j \<Longrightarrow> i = j"
proof -
  assume a: "toString i = toString j"
  have h: "digits_of n \<noteq> 0x2D # ds" "0x2D # ds \<noteq> digits_of n" for n ds
    using hd_digits_of [of n] by (cases "digits_of n"; auto)+
  show ?thesis
  proof (cases "i < 0")
    case True
    then have "j < 0" using a h by (auto simp: toString_def split: if_splits)
    then have "nat (- i) = nat (- j)" using a True by (auto simp: toString_def dest: digits_of_inj)
    then show ?thesis using True \<open>j < 0\<close> by simp
  next
    case False
    then have "\<not> j < 0" using a h by (auto simp: toString_def split: if_splits)
    then have "nat i = nat j" using a False by (auto simp: toString_def dest: digits_of_inj)
    then show ?thesis using False \<open>\<not> j < 0\<close> by simp
  qed
qed

lemma ids_of_tasks: "ids_of (map task_object ts) = map (\<lambda>t. Some (JString (id' t))) ts"
  by (simp add: ids_of_def task_object_def key_literals)

lemma distinct_ids_of_tasks: "distinct (map id' ts) \<Longrightarrow> distinct (ids_of (map task_object ts))"
  by (simp add: ids_of_tasks distinct_map inj_on_def)

lemma ids_below_mono: "ids_below b ts \<Longrightarrow> b \<le> b' \<Longrightarrow> ids_below b' ts"
proof -
  assume a: "ids_below b ts" and le: "b \<le> b'"
  have "\<exists>c < b'. id' t = toString c" if t: "t \<in> set ts" for t
  proof -
    obtain c where "c < b" "id' t = toString c" using a t by (auto simp: ids_below_def)
    then show ?thesis using le by (intro exI [of _ c]) simp
  qed
  then show ?thesis using a by (simp add: ids_below_def)
qed

lemma map_id_toggle:
  "map id' (map (\<lambda>t. if id' t = i then t\<lparr>completed := \<not> completed t\<rparr> else t) ts) = map id' ts"
  by (induction ts) auto

lemma ids_below_toggle:
  assumes "ids_below b ts"
  shows "ids_below b (map (\<lambda>t. if id' t = i then t\<lparr>completed := \<not> completed t\<rparr> else t) ts)"
proof -
  let ?f = "\<lambda>t. if id' t = i then t\<lparr>completed := \<not> completed t\<rparr> else t"
  have d: "distinct (map id' (map ?f ts))"
    using assms by (simp only: map_id_toggle ids_below_def)
  have "\<exists>c < b. id' t' = toString c" if t': "t' \<in> set (map ?f ts)" for t'
  proof -
    obtain t where t: "t \<in> set ts" "t' = ?f t" using t' by auto
    then have "id' t' = id' t" by simp
    then show ?thesis using assms t(1) by (auto simp: ids_below_def)
  qed
  then show ?thesis using d unfolding ids_below_def by blast
qed

lemma ids_below_delete: "ids_below b ts \<Longrightarrow> ids_below b (filter (\<lambda>t. id' t \<noteq> i) ts)"
  by (simp add: ids_below_def distinct_map_filter)

lemma ids_below_add:
  assumes "ids_below b ts" and "b \<le> now"
  shows "ids_below (now + 1) (ts @ [\<lparr>id' = toString now, description = d, completed = False\<rparr>])"
proof -
  have new: "toString now \<notin> id' ` set ts"
  proof
    assume "toString now \<in> id' ` set ts"
    then obtain t where t: "t \<in> set ts" "id' t = toString now" by auto
    from assms(1) t(1) obtain c where c: "c < b" "id' t = toString c"
      unfolding ids_below_def by blast
    from c(2) t(2) have "toString c = toString now" by simp
    then have "c = now" by (rule toString_inj)
    then show False using c(1) assms(2) by simp
  qed
  have up: "ids_below (now + 1) ts"
    using assms(1) by (rule ids_below_mono) (use assms(2) in simp)
  have d1: "distinct (map id' ts)" using up unfolding ids_below_def by (rule conjunct1)
  have b1: "\<forall>t \<in> set ts. \<exists>c < now + 1. id' t = toString c"
    using up unfolding ids_below_def by (rule conjunct2)
  have lt: "now < now + 1" by simp
  have ex: "\<exists>c < now + 1. toString now = toString c"
    using lt by (intro exI [of _ now] conjI refl)
  have d2: "distinct (map id' (ts @ [\<lparr>id' = toString now, description = d, completed = False\<rparr>]))"
    using d1 new by simp
  have b2: "\<forall>t \<in> set (ts @ [\<lparr>id' = toString now, description = d, completed = False\<rparr>]).
              \<exists>c < now + 1. id' t = toString c"
  proof
    fix t assume "t \<in> set (ts @ [\<lparr>id' = toString now, description = d, completed = False\<rparr>])"
    then consider "t \<in> set ts" | "t = \<lparr>id' = toString now, description = d, completed = False\<rparr>"
      by auto
    then show "\<exists>c < now + 1. id' t = toString c"
    proof cases
      case 1 then show ?thesis using b1 by (rule_tac bspec)
    next
      case 2 then show ?thesis using ex by (simp only: Task.select_convs)
    qed
  qed
  show ?thesis unfolding ids_below_def using d2 b2 by (rule conjI)
qed

lemma step_Add_keeps_ids:
  assumes "tasks_list (store w) = map task_object ts" and "ids_below b ts" and "b \<le> now"
  shows "\<exists>ts'. tasks_list (store (step w (Add now))) = map task_object ts'
           \<and> ids_below (now + 1) ts'"
proof (cases "trim (task_input_description (store w)) \<noteq> []
      \<and> length (trim (task_input_description (store w))) \<le> 256")
  case True
  let ?t = "\<lparr>id' = toString now, description = trim (task_input_description (store w)),
    completed = False\<rparr>"
  from True have v: "trim (task_input_description (store w)) \<noteq> []"
    "length (trim (task_input_description (store w))) \<le> 256" by blast+
  have "tasks_list (store (step w (Add now))) = map task_object (ts @ [?t])"
    by (simp only: step.simps add_new_task_valid_tasks [OF v] assms(1) map_append list.map)
  moreover have "ids_below (now + 1) (ts @ [?t])"
    using assms(2,3) by (rule ids_below_add)
  ultimately show ?thesis by blast
next
  case False
  then have "trim (task_input_description (store w)) = [] \<or>
    256 < length (trim (task_input_description (store w)))" by auto
  then have "tasks_list (store (step w (Add now))) = map task_object ts"
    by (simp only: step.simps add_new_task_rejected_store assms(1))
  moreover have "ids_below (now + 1) ts"
    using assms(2) by (rule ids_below_mono) (use assms(3) in simp)
  ultimately show ?thesis by blast
qed

lemma step_other_keeps_ids:
  assumes "tasks_list (store w) = map task_object ts" and "ids_below b ts" and "clocks [e] = []"
  shows "\<exists>ts'. tasks_list (store (step w e)) = map task_object ts' \<and> ids_below b ts'"
proof (cases e)
  case (Type_input d)
  have "tasks_list (store (snd (set_task_input_description d w))) = tasks_list (store w)"
    by (rule set_task_input_description_tasks)
  then have "tasks_list (store (step w e)) = map task_object ts"
    by (simp only: Type_input step.simps assms(1))
  then show ?thesis using assms(2) by blast
next
  case (Add now)
  then show ?thesis using assms(3) by simp
next
  case (Toggle i)
  let ?ts = "map (\<lambda>t. if id' t = i then t\<lparr>completed := \<not> completed t\<rparr> else t) ts"
  have "tasks_list (store (step w e)) = map task_object ?ts"
    by (simp only: Toggle step.simps tasks_after_toggle [OF assms(1)])
  moreover have "ids_below b ?ts" using assms(2) by (rule ids_below_toggle)
  ultimately show ?thesis by blast
next
  case (Delete i)
  let ?ts = "filter (\<lambda>t. id' t \<noteq> i) ts"
  have "tasks_list (store (step w e)) = map task_object ?ts"
    by (simp only: Delete step.simps tasks_after_delete [OF assms(1)])
  moreover have "ids_below b ?ts" using assms(2) by (rule ids_below_delete)
  ultimately show ?thesis by blast
qed

lemma clocks_Cons: "clocks (e # es) = clocks [e] @ clocks es"
  by (cases e) simp_all

lemma run_keeps_ids:
  "tasks_list (store w) = map task_object ts \<Longrightarrow> ids_below b ts \<Longrightarrow>
   sorted_wrt (<) (clocks es) \<Longrightarrow> \<forall>c \<in> set (clocks es). b \<le> c \<Longrightarrow>
   \<exists>ts' b'. tasks_list (store (run w es)) = map task_object ts' \<and> ids_below b' ts'"
proof (induction es arbitrary: w ts b)
  case Nil
  then show ?case by (auto simp: run_def)
next
  case (Cons e es)
  have r: "run w (e # es) = run (step w e) es" by (simp add: run_def)
  show ?case
  proof (cases "clocks [e] = []")
    case True
    then have c: "clocks (e # es) = clocks es" by (simp add: clocks_Cons [of e es])
    obtain ts' where s: "tasks_list (store (step w e)) = map task_object ts'" "ids_below b ts'"
      using step_other_keeps_ids [OF Cons.prems(1,2) True] by blast
    show ?thesis
      unfolding r using Cons.IH [OF s] Cons.prems(3,4) unfolding c by blast
  next
    case False
    then obtain now where e: "e = Add now" by (cases e) simp_all
    have c: "clocks (e # es) = now # clocks es" by (simp add: e)
    have le: "b \<le> now" using Cons.prems(4) unfolding c by simp
    obtain ts' where s: "tasks_list (store (step w e)) = map task_object ts'"
        "ids_below (now + 1) ts'"
      using step_Add_keeps_ids [OF Cons.prems(1,2) le] unfolding e by blast
    have so: "sorted_wrt (<) (clocks es)" using Cons.prems(3) unfolding c by simp
    have bd: "\<forall>c \<in> set (clocks es). now + 1 \<le> c"
      using Cons.prems(3) unfolding c by auto
    show ?thesis unfolding r using Cons.IH [OF s so bd] .
  qed
qed

lemma ids_below_Nil: "ids_below b []"
  by (simp add: ids_below_def)

lemma sorted_wrt_lower_bound:
  "sorted_wrt (<) (cs :: int list) \<Longrightarrow> \<exists>b. \<forall>c \<in> set cs. b \<le> c"
  by (cases cs) (auto intro: exI [of _ "hd cs"] less_imp_le)

lemma ids_distinct_when_clock_advances:
  assumes "sorted_wrt (<) (clocks es)"
  shows "distinct (ids_of (tasks_list (store (run initial_world es))))"
proof -
  obtain b where b: "\<forall>c \<in> set (clocks es). b \<le> c"
    using sorted_wrt_lower_bound [OF assms] by blast
  have i: "tasks_list (store initial_world) = map task_object []"
    by (simp add: initial_world_def initial_state_def)
  obtain ts' b' where t: "tasks_list (store (run initial_world es)) = map task_object ts'"
      "ids_below b' ts'"
    using run_keeps_ids [OF i ids_below_Nil assms b] by blast
  from t(2) have "distinct (map id' ts')" unfolding ids_below_def by (rule conjunct1)
  then show ?thesis unfolding t(1) by (rule distinct_ids_of_tasks)
qed

section \<open>Identifiers\<close>

text \<open>
  Claim C1. Along every run of \<^verbatim>\<open>add_new_task\<close>, \<^verbatim>\<open>toggle_task_completion\<close> and
  \<^verbatim>\<open>delete_task\<close> from the empty store the ids in \<^verbatim>\<open>tasks_list\<close> are pairwise
  distinct. The store takes a new id from \<^verbatim>\<open>Date.now().toString()\<close>, which its
  comment calls a ``simple unique ID''; two tasks added while the clock shows the same
  millisecond get the same id. In the run below ``a'' is typed and added, then ``b'' is
  typed and added, both at 1700000000000: the list ends with two tasks whose id is
  ``1700000000000''. Runs in which the clock advances between two additions keep the
  ids distinct, by \<open>ids_distinct_when_clock_advances\<close>.
\<close>

theorem duplicate_ids_within_one_millisecond:
  "ids_of (tasks_list (store (run initial_world
      [Type_input (lit ''a''), Add 1700000000000, Type_input (lit ''b''), Add 1700000000000])))
     = [Some (JString (lit ''1700000000000'')), Some (JString (lit ''1700000000000''))]
   \<and> \<not> distinct (ids_of (tasks_list (store (run initial_world
      [Type_input (lit ''a''), Add 1700000000000, Type_input (lit ''b''), Add 1700000000000]))))"
proof -
  let ?w1 = "snd (set_task_input_description (lit ''a'') initial_world)"
  let ?w2 = "snd (add_new_task 1700000000000 ?w1)"
  let ?w3 = "snd (set_task_input_description (lit ''b'') ?w2)"
  let ?w4 = "snd (add_new_task 1700000000000 ?w3)"
  have 1: "store ?w1 = initial_state\<lparr>task_input_description := lit ''a''\<rparr>"
    by (subst set_task_input_description_quiet)
       (simp_all add: initial_world_simps initial_state_def)
  have 2: "store ?w2 = initial_state\<lparr>tasks_list :=
      [task_object \<lparr>id' = lit ''1700000000000'', description = lit ''a'', completed = False\<rparr>],
      has_persisted_data := True\<rparr>"
    by (subst add_new_task_valid_store)
       (simp_all add: 1 trim_examples lit_nonempty toString_example initial_state_def)
  have 3: "store ?w3 = (store ?w2)\<lparr>task_input_description := lit ''b''\<rparr>"
    by (subst set_task_input_description_quiet) (simp_all add: 2 initial_state_def)
  have 4: "tasks_list (store ?w4) =
      [task_object \<lparr>id' = lit ''1700000000000'', description = lit ''a'', completed = False\<rparr>,
       task_object \<lparr>id' = lit ''1700000000000'', description = lit ''b'', completed = False\<rparr>]"
    by (subst add_new_task_valid_store)
       (simp_all add: 3 2 trim_examples lit_nonempty toString_example initial_state_def)
  have "run initial_world
      [Type_input (lit ''a''), Add 1700000000000, Type_input (lit ''b''), Add 1700000000000] = ?w4"
    by (simp add: run_def)
  then show ?thesis
    by (simp add: 4 ids_of_def task_object_def key_literals)
qed

section \<open>Failures of the storage\<close>

text \<open>
  Claim C2. A failure thrown by the storage access inside an action is caught there and
  turned into state fields; none reaches the caller. \<^verbatim>\<open>load_tasks_from_local_storage\<close>
  does so for its read: with a storage that denies access it returns and sets
  \<^verbatim>\<open>local_storage_unavailable\<close>. The writes of \<^verbatim>\<open>add_new_task\<close>,
  \<^verbatim>\<open>toggle_task_completion\<close> and \<^verbatim>\<open>delete_task\<close> stand outside any
  \<^verbatim>\<open>try\<close>, the one inside \<^verbatim>\<open>set\<close> as well as the \<^verbatim>\<open>setItem\<close> of the
  write-through: when the storage is full the exception leaves the action out of
  \<^verbatim>\<open>set\<close>, when access is denied it leaves it out of \<^verbatim>\<open>setItem\<close>, and
  neither \<^verbatim>\<open>app_status\<close> nor \<^verbatim>\<open>error_message\<close> records it.
\<close>

theorem write_fault_escapes:
  "fst (add_new_task 1700000000000 (storage_full scenario_A)) = Threw QuotaExceededError
   \<and> fst (toggle_task_completion (lit ''1'') (storage_full scenario_B)) = Threw QuotaExceededError
   \<and> fst (delete_task (lit ''1'') (storage_denied scenario_B)) = Threw SecurityError
   \<and> app_status (store (snd (add_new_task 1700000000000 (storage_full scenario_A)))) = initialized
   \<and> error_message (store (snd (add_new_task 1700000000000 (storage_full scenario_A)))) = None
   \<and> fst (load_tasks_from_local_storage (storage_denied scenario_B)) = Returned ()
   \<and> app_status (store (snd (load_tasks_from_local_storage (storage_denied scenario_B))))
       = local_storage_unavailable"
proof -
  have t: "tasks_list (store (storage_full scenario_B)) = map task_object [task_X]"
    "tasks_list (store (storage_denied scenario_B)) = map task_object [task_X]"
    by (simp_all add: storage_fault_simps scenario_B_simps)
  have v: "trim (task_input_description (store (storage_full scenario_A))) \<noteq> []"
    "length (trim (task_input_description (store (storage_full scenario_A)))) \<le> 256"
    by (simp_all add: storage_fault_simps scenario_A_simps trim_examples lit_nonempty)
  show ?thesis
    by (simp add: add_new_task_valid_result [OF v] add_new_task_valid_store [OF v]
        toggle_result [OF t(1)] delete_result [OF t(2)] load_denied
        storage_fault_simps scenario_A_simps scenario_B_simps initial_state_def)
qed

section \<open>What is persisted, and where\<close>

text \<open>
  Claim C3, as the store implements it. With a storage that accepts reads and writes,
  each of \<^verbatim>\<open>add_new_task\<close> (on valid input), \<^verbatim>\<open>toggle_task_completion\<close> and
  \<^verbatim>\<open>delete_task\<close> on a list of tasks writes twice. First \<^verbatim>\<open>set\<close> stores under the
  key \<^verbatim>\<open>nex_task_store\<close> of the middleware the text of
  \<^verbatim>\<open>{ state: { tasks_list, has_persisted_data }, version: 0 }\<close>: the object with
  exactly the two fields \<^verbatim>\<open>tasks_list\<close> and \<^verbatim>\<open>has_persisted_data\<close> of the new state,
  beside the version of the layout. Then the write-through of the action stores under
  the key \<^verbatim>\<open>nex_task_tasks\<close> the text of the bare array that is the new
  \<^verbatim>\<open>tasks_list\<close>. Both texts are functions of these two fields alone, so that no
  transient field is part of what is persisted; when the action has returned, the two
  items hold these texts and every other item is untouched.
  \<^verbatim>\<open>load_tasks_from_local_storage\<close> reads \<^verbatim>\<open>nex_task_tasks\<close>, the bare array, and
  no other item; its three calls of \<^verbatim>\<open>set\<close> write the item of the middleware.
\<close>

theorem write_through_layout:
  assumes "tasks_list (store w) = map task_object ts"
    and "\<not> access_denied (localStorage w)" and "\<not> quota_exceeded (localStorage w)"
  shows "(trim (task_input_description (store w)) \<noteq> []
            \<and> length (trim (task_input_description (store w))) \<le> 256 \<longrightarrow>
          new_calls w (snd (add_new_task now w))
            = [SetItem persist_name (persist_item (store (snd (add_new_task now w)))),
               SetItem LOCAL_STORAGE_KEY
                 (JSON_stringify (JArray (tasks_list (store (snd (add_new_task now w))))))]
          \<and> items (localStorage (snd (add_new_task now w)))
            = (items (localStorage w))
                (persist_name \<mapsto> persist_item (store (snd (add_new_task now w))),
                 LOCAL_STORAGE_KEY \<mapsto>
                   JSON_stringify (JArray (tasks_list (store (snd (add_new_task now w)))))))
       \<and> new_calls w (snd (toggle_task_completion i w))
            = [SetItem persist_name (persist_item (store (snd (toggle_task_completion i w)))),
               SetItem LOCAL_STORAGE_KEY
                 (JSON_stringify (JArray (tasks_list (store (snd (toggle_task_completion i w))))))]
       \<and> items (localStorage (snd (toggle_task_completion i w)))
            = (items (localStorage w))
                (persist_name \<mapsto> persist_item (store (snd (toggle_task_completion i w))),
                 LOCAL_STORAGE_KEY \<mapsto>
                   JSON_stringify (JArray (tasks_list (store (snd (toggle_task_completion i w))))))
       \<and> new_calls w (snd (delete_task i w))
            = [SetItem persist_name (persist_item (store (snd (delete_task i w)))),
               SetItem LOCAL_STORAGE_KEY
                 (JSON_stringify (JArray (tasks_list (store (snd (delete_task i w))))))]
       \<and> items (localStorage (snd (delete_task i w)))
            = (items (localStorage w))
                (persist_name \<mapsto> persist_item (store (snd (delete_task i w))),
                 LOCAL_STORAGE_KEY \<mapsto>
                   JSON_stringify (JArray (tasks_list (store (snd (delete_task i w))))))
       \<and> new_calls w (snd (load_tasks_from_local_storage w))
            = [SetItem persist_name (persist_item (store w)),
               GetItem LOCAL_STORAGE_KEY,
               SetItem persist_name (persist_item (store (snd (load_tasks_from_local_storage w)))),
               SetItem persist_name (persist_item (store (snd (load_tasks_from_local_storage w))))]
       \<and> persist_name \<noteq> LOCAL_STORAGE_KEY
       \<and> persist_item s
            = JSON_stringify (JObject
                [(lit ''state'', JObject [(lit ''tasks_list'', JArray (tasks_list s)),
                                          (lit ''has_persisted_data'', JBool (has_persisted_data s))]),
                 (lit ''version'', JNum (lit ''0''))])"
proof (intro conjI impI)
  assume v: "trim (task_input_description (store w)) \<noteq> []
      \<and> length (trim (task_input_description (store w))) \<le> 256"
  note a = add_new_task_valid_storage [OF conjunct1 [OF v] conjunct2 [OF v] assms(2,3), of now]
  show "new_calls w (snd (add_new_task now w))
      = [SetItem persist_name (persist_item (store (snd (add_new_task now w)))),
         SetItem LOCAL_STORAGE_KEY
           (JSON_stringify (JArray (tasks_list (store (snd (add_new_task now w))))))]"
    using a assms(2,3) by (rule two_writes(1))
  show "items (localStorage (snd (add_new_task now w)))
      = (items (localStorage w))
          (persist_name \<mapsto> persist_item (store (snd (add_new_task now w))),
           LOCAL_STORAGE_KEY \<mapsto>
             JSON_stringify (JArray (tasks_list (store (snd (add_new_task now w))))))"
    using a assms(2,3) by (rule two_writes(2))
next
  note a = toggle_storage [OF assms, of i]
  show "new_calls w (snd (toggle_task_completion i w))
      = [SetItem persist_name (persist_item (store (snd (toggle_task_completion i w)))),
         SetItem LOCAL_STORAGE_KEY
           (JSON_stringify (JArray (tasks_list (store (snd (toggle_task_completion i w))))))]"
    using a assms(2,3) by (rule two_writes(1))
  show "items (localStorage (snd (toggle_task_completion i w)))
      = (items (localStorage w))
          (persist_name \<mapsto> persist_item (store (snd (toggle_task_completion i w))),
           LOCAL_STORAGE_KEY \<mapsto>
             JSON_stringify (JArray (tasks_list (store (snd (toggle_task_completion i w))))))"
    using a assms(2,3) by (rule two_writes(2))
next
  note a = delete_storage [OF assms, of i]
  show "new_calls w (snd (delete_task i w))
      = [SetItem persist_name (persist_item (store (snd (delete_task i w)))),
         SetItem LOCAL_STORAGE_KEY
           (JSON_stringify (JArray (tasks_list (store (snd (delete_task i w))))))]"
    using a assms(2,3) by (rule two_writes(1))
  show "items (localStorage (snd (delete_task i w)))
      = (items (localStorage w))
          (persist_name \<mapsto> persist_item (store (snd (delete_task i w))),
           LOCAL_STORAGE_KEY \<mapsto>
             JSON_stringify (JArray (tasks_list (store (snd (delete_task i w))))))"
    using a assms(2,3) by (rule two_writes(2))
next
  show "new_calls w (snd (load_tasks_from_local_storage w))
      = [SetItem persist_name (persist_item (store w)),
         GetItem LOCAL_STORAGE_KEY,
         SetItem persist_name (persist_item (store (snd (load_tasks_from_local_storage w)))),
         SetItem persist_name (persist_item (store (snd (load_tasks_from_local_storage w))))]"
    using load_working_calls [OF assms(2,3)] by (rule new_calls_append)
next
  show "persist_name \<noteq> LOCAL_STORAGE_KEY" by (rule names_differ(1))
next
  show "persist_item s
      = JSON_stringify (JObject
          [(lit ''state'', JObject [(lit ''tasks_list'', JArray (tasks_list s)),
                                    (lit ''has_persisted_data'', JBool (has_persisted_data s))]),
           (lit ''version'', JNum (lit ''0''))])"
    by (rule persist_item_layout)
qed

theorem write_through_layout_witness:
  "new_calls scenario_A (snd (add_new_task 1700000000000 scenario_A))
     = [SetItem persist_name (persist_item (initial_state\<lparr>tasks_list := [task_object
          \<lparr>id' = lit ''1700000000000'', description = lit ''Buy milk'', completed = False\<rparr>],
          has_persisted_data := True\<rparr>)),
        SetItem LOCAL_STORAGE_KEY (JSON_stringify (JArray [task_object
          \<lparr>id' = lit ''1700000000000'', description = lit ''Buy milk'', completed = False\<rparr>]))]
   \<and> items (localStorage (snd (toggle_task_completion (lit ''1'') scenario_A))) LOCAL_STORAGE_KEY
     = Some (JSON_stringify (JArray []))
   \<and> items (localStorage (snd (delete_task (lit ''1'') scenario_A))) persist_name
     = Some (persist_item initial_state)"
proof -
  note t = scenario_A_simps(2)
  have s: "tasks_list (store (snd (toggle_task_completion (lit ''1'') scenario_A))) = []"
    "store (snd (delete_task (lit ''1'') scenario_A))
       = initial_state\<lparr>task_input_description := lit ''Buy milk''\<rparr>"
    by (simp_all add: store_after_toggle [OF t] store_after_delete [OF t] scenario_A_simps
        initial_state_def)
  show ?thesis
    using write_through_layout [OF t, of 1700000000000 "lit ''1''"]
    by (simp add: s scenario_A_added scenario_A_simps trim_examples lit_nonempty names_differ
        persist_item_transient del: JSON_stringify.simps)
qed

text \<open>
  What is persisted does not sit under a single key, and the slot that
  \<^verbatim>\<open>load_tasks_from_local_storage\<close> reads does not hold an object with the fields
  \<^verbatim>\<open>tasks_list\<close> and \<^verbatim>\<open>has_persisted_data\<close>: after ``Buy milk'' is added to the
  empty store that slot holds a text that parses to an array, and the item of the
  middleware, under another key, holds the object.
\<close>

theorem write_through_layout_counterexample:
  "items (localStorage (snd (add_new_task 1700000000000 scenario_A))) LOCAL_STORAGE_KEY
     = Some (JSON_stringify (JArray [task_object
          \<lparr>id' = lit ''1700000000000'', description = lit ''Buy milk'', completed = False\<rparr>]))
   \<and> JSON_parse (JSON_stringify (JArray [task_object
          \<lparr>id' = lit ''1700000000000'', description = lit ''Buy milk'', completed = False\<rparr>]))
     = Inr (JArray [task_object
          \<lparr>id' = lit ''1700000000000'', description = lit ''Buy milk'', completed = False\<rparr>])
   \<and> items (localStorage (snd (add_new_task 1700000000000 scenario_A))) persist_name
     = Some (persist_item (store (snd (add_new_task 1700000000000 scenario_A))))
   \<and> persist_name \<noteq> LOCAL_STORAGE_KEY"
proof -
  have p: "JSON_parse (JSON_stringify (JArray (map task_object
          [\<lparr>id' = lit ''1700000000000'', description = lit ''Buy milk'', completed = False\<rparr>])))
     = Inr (JArray (map task_object
          [\<lparr>id' = lit ''1700000000000'', description = lit ''Buy milk'', completed = False\<rparr>]))"
    by (rule JSON_round_trip_tasks)
  have a: "\<not> access_denied (localStorage scenario_A)" "\<not> quota_exceeded (localStorage scenario_A)"
    by (simp_all add: scenario_A_simps)
  note st = add_new_task_valid_storage [OF scenario_A_valid a, of 1700000000000]
  have i: "items (localStorage (snd (add_new_task 1700000000000 scenario_A)))
      = (items (localStorage scenario_A))
          (persist_name \<mapsto> persist_item (store (snd (add_new_task 1700000000000 scenario_A))),
           LOCAL_STORAGE_KEY \<mapsto> JSON_stringify (JArray (tasks_list
              (store (snd (add_new_task 1700000000000 scenario_A))))))"
    using st a by (rule two_writes(2))
  show ?thesis
    using p by (simp add: i names_differ scenario_A_added del: JSON_stringify.simps)
qed

section \<open>Loading\<close>

text \<open>
  Claim C4, as the store implements it. When the storage accepts reads and writes and
  the slot holds a non-empty text: if the text parses to an array, that array becomes
  \<^verbatim>\<open>tasks_list\<close> whatever its elements are (their shape is not inspected), with
  \<^verbatim>\<open>has_persisted_data = (length > 0)\<close> and \<^verbatim>\<open>app_status = initialized\<close>; if it
  parses to a value that is not an array, this is corruption: \<^verbatim>\<open>tasks_list = []\<close>,
  \<^verbatim>\<open>app_status = error\<close> and the message ``Corrupted data in local storage.''; if it
  does not parse, the \<^verbatim>\<open>SyntaxError\<close> is caught like a storage failure:
  \<^verbatim>\<open>tasks_list = []\<close>, \<^verbatim>\<open>app_status = local_storage_unavailable\<close>,
  \<^verbatim>\<open>has_persisted_data = false\<close> and the storage message. In each of these cases the
  call returns and \<^verbatim>\<open>is_loading_tasks\<close> ends false.
\<close>

theorem load_accepts_any_array:
  assumes "\<not> access_denied (localStorage w)" and "\<not> quota_exceeded (localStorage w)"
    and "items (localStorage w) LOCAL_STORAGE_KEY = Some text"
    and "text \<noteq> []"
  shows "(\<forall>elements. JSON_parse text = Inr (JArray elements) \<longrightarrow>
            tasks_list (store (snd (load_tasks_from_local_storage w))) = elements
            \<and> has_persisted_data (store (snd (load_tasks_from_local_storage w))) = (elements \<noteq> [])
            \<and> app_status (store (snd (load_tasks_from_local_storage w))) = initialized)
       \<and> (\<forall>v. JSON_parse text = Inr v \<and> (\<forall>elements. v \<noteq> JArray elements) \<longrightarrow>
            tasks_list (store (snd (load_tasks_from_local_storage w))) = []
            \<and> app_status (store (snd (load_tasks_from_local_storage w))) = error
            \<and> error_message (store (snd (load_tasks_from_local_storage w)))
                = Some (lit ''Corrupted data in local storage.''))
       \<and> (\<forall>e. JSON_parse text = Inl e \<longrightarrow>
            tasks_list (store (snd (load_tasks_from_local_storage w))) = []
            \<and> app_status (store (snd (load_tasks_from_local_storage w))) = local_storage_unavailable
            \<and> has_persisted_data (store (snd (load_tasks_from_local_storage w))) = False
            \<and> error_message (store (snd (load_tasks_from_local_storage w)))
                = Some storage_failure_message)
       \<and> is_loading_tasks (store (snd (load_tasks_from_local_storage w))) = False
       \<and> fst (load_tasks_from_local_storage w) = Returned ()"
  using assms(3,4)
  by (auto simp: load_working_store [OF assms(1,2)] load_working_result [OF assms(1,2)]
      split: json.splits sum.splits)

theorem load_accepts_any_array_witness:
  "tasks_list (store (snd (load_tasks_from_local_storage
       (world_of initial_state [LOCAL_STORAGE_KEY \<mapsto> lit ''[{}]''])))) = [JObject []]
   \<and> app_status (store (snd (load_tasks_from_local_storage
       (world_of initial_state [LOCAL_STORAGE_KEY \<mapsto> lit ''{}'']))))  = error
   \<and> app_status (store (snd (load_tasks_from_local_storage
       (world_of initial_state [LOCAL_STORAGE_KEY \<mapsto> lit ''{'']))))  = local_storage_unavailable
   \<and> fst (load_tasks_from_local_storage
       (world_of initial_state [LOCAL_STORAGE_KEY \<mapsto> lit ''[{}]''])) = Returned ()"
  using load_accepts_any_array [of "world_of initial_state [LOCAL_STORAGE_KEY \<mapsto> lit ''[{}]'']" "lit ''[{}]''"]
    load_accepts_any_array [of "world_of initial_state [LOCAL_STORAGE_KEY \<mapsto> lit ''{}'']" "lit ''{}''"]
    load_accepts_any_array [of "world_of initial_state [LOCAL_STORAGE_KEY \<mapsto> lit ''{'']" "lit ''{''"]
  by (simp add: parse_examples) (simp add: lit_def)

text \<open>
  Content that is not a sequence of task-shaped records is not always treated as
  corruption: the array \<^verbatim>\<open>[{}]\<close> is accepted as the task list, although
  \<^verbatim>\<open>taskSchema\<close> rejects its element; the text \<^verbatim>\<open>{\<close>, which does not parse, gives
  \<^verbatim>\<open>local_storage_unavailable\<close> and the storage message; the empty text is taken for
  an absent slot and leaves no error at all.
\<close>

theorem load_shape_counterexample:
  "tasks_list (store (snd (load_tasks_from_local_storage
       (world_of initial_state [LOCAL_STORAGE_KEY \<mapsto> lit ''[{}]''])))) = [JObject []]
   \<and> \<not> taskSchema (JObject [])
   \<and> app_status (store (snd (load_tasks_from_local_storage
       (world_of initial_state [LOCAL_STORAGE_KEY \<mapsto> lit ''[{}]''])))) = initialized
   \<and> error_message (store (snd (load_tasks_from_local_storage
       (world_of initial_state [LOCAL_STORAGE_KEY \<mapsto> lit ''[{}]''])))) = None
   \<and> app_status (store (snd (load_tasks_from_local_storage
       (world_of initial_state [LOCAL_STORAGE_KEY \<mapsto> lit ''{''])))) = local_storage_unavailable
   \<and> error_message (store (snd (load_tasks_from_local_storage
       (world_of initial_state [LOCAL_STORAGE_KEY \<mapsto> lit ''{''])))) = Some storage_failure_message
   \<and> app_status (store (snd (load_tasks_from_local_storage
       (world_of initial_state [LOCAL_STORAGE_KEY \<mapsto> []])))) = initialized
   \<and> error_message (store (snd (load_tasks_from_local_storage
       (world_of initial_state [LOCAL_STORAGE_KEY \<mapsto> []])))) = None"
proof -
  have ne: "lit ''[{}]'' \<noteq> []" "lit ''{'' \<noteq> []" by (simp_all add: lit_def)
  show ?thesis
    by (simp add: load_world_of parse_examples ne taskSchema_def initial_state_def)
qed

section \<open>Adding a task\<close>

text \<open>
  Claim C5. In every state whose trimmed \<^verbatim>\<open>task_input_description\<close> is non-empty and
  at most 256 long, \<^verbatim>\<open>add_new_task\<close> returns true, appends exactly one task with the
  trimmed description and \<^verbatim>\<open>completed = false\<close> at the end of \<^verbatim>\<open>tasks_list\<close>,
  empties the input and sets \<^verbatim>\<open>has_persisted_data\<close>. Lemmas
  \<open>add_new_task_valid_store\<close> and \<open>add_new_task_valid_result\<close> above give the action
  on such a state: the store changes as claimed, and the result is true exactly when
  the storage accepts the writes. With ``Buy milk'' typed in and a storage that is
  full, the task is appended and the input emptied, yet the action does not return
  true: the \<^verbatim>\<open>QuotaExceededError\<close> of an unguarded write leaves it.
\<close>

theorem add_new_task_throws_on_full_storage:
  "trim (task_input_description (store (storage_full scenario_A))) = lit ''Buy milk''
   \<and> fst (add_new_task 1700000000000 (storage_full scenario_A)) = Threw QuotaExceededError
   \<and> tasks_list (store (snd (add_new_task 1700000000000 (storage_full scenario_A))))
       = [task_object \<lparr>id' = lit ''1700000000000'', description = lit ''Buy milk'',
            completed = False\<rparr>]
   \<and> task_input_description (store (snd (add_new_task 1700000000000 (storage_full scenario_A)))) = []"
proof -
  have v: "trim (task_input_description (store (storage_full scenario_A))) \<noteq> []"
    "length (trim (task_input_description (store (storage_full scenario_A)))) \<le> 256"
    by (simp_all add: storage_fault_simps scenario_A_simps trim_examples lit_nonempty)
  show ?thesis
    by (simp add: add_new_task_valid_result [OF v] add_new_task_valid_store [OF v]
        storage_fault_simps scenario_A_simps trim_examples toString_example initial_state_def)
qed

section \<open>Validation in add_new_task\<close>

text \<open>
  Claim C6. \<^verbatim>\<open>add_new_task\<close> returns false and leaves \<^verbatim>\<open>tasks_list\<close> unchanged if
  and only if the trimmed \<^verbatim>\<open>task_input_description\<close> is empty or longer than 256.
  In the empty case \<^verbatim>\<open>error_message\<close> becomes exactly ``Task cannot be empty.'', in
  the too-long case the message that names the limit of 256; in both cases a timer of
  3000 ms is scheduled that clears the message. Lemma
  \<open>add_new_task_rejects_when_set_returns\<close> above shows all of this wherever \<^verbatim>\<open>set\<close>
  returns. The \<^verbatim>\<open>set\<close> that stores the message stands outside any \<^verbatim>\<open>try\<close>: with a
  storage that is full, and blanks or 257 letters typed in, the message is set, but the
  \<^verbatim>\<open>QuotaExceededError\<close> leaves the action before the timer is scheduled and before
  \<^verbatim>\<open>return false\<close>. The same input beside a working storage returns false and
  schedules the timer.
\<close>

theorem add_new_task_rejection_throws_on_full_storage:
  "trim (task_input_description (store (storage_full blank_input))) = []
   \<and> fst (add_new_task 1700000000000 (storage_full blank_input)) = Threw QuotaExceededError
   \<and> error_message (store (snd (add_new_task 1700000000000 (storage_full blank_input))))
       = Some (lit ''Task cannot be empty.'')
   \<and> timers (snd (add_new_task 1700000000000 (storage_full blank_input))) = []
   \<and> length (trim (task_input_description (store (storage_full scenario_C)))) = 257
   \<and> fst (add_new_task 1700000000000 (storage_full scenario_C)) = Threw QuotaExceededError
   \<and> error_message (store (snd (add_new_task 1700000000000 (storage_full scenario_C))))
       = Some (lit ''Task is too long (max 256 characters).'')
   \<and> timers (snd (add_new_task 1700000000000 (storage_full scenario_C))) = []
   \<and> fst (add_new_task 1700000000000 blank_input) = Returned False
   \<and> timers (snd (add_new_task 1700000000000 blank_input)) = [(3000, Call_clear_error_message)]"
proof -
  have b: "trim (task_input_description (store (storage_full blank_input))) = []
      \<or> length (trim (task_input_description (store (storage_full blank_input)))) > 256"
    by (simp add: storage_fault_simps rejected_simps)
  have c: "trim (task_input_description (store (storage_full scenario_C))) = []
      \<or> length (trim (task_input_description (store (storage_full scenario_C)))) > 256"
    by (simp add: storage_fault_simps rejected_simps)
  have b': "trim (task_input_description (store blank_input)) = []
      \<or> length (trim (task_input_description (store blank_input))) > 256"
    by (simp add: rejected_simps)
  have ne: "replicate 257 (0x61 :: code_unit) \<noteq> []" by simp
  show ?thesis
    by (simp add: add_new_task_rejected [OF b] add_new_task_rejected [OF c]
        add_new_task_rejected [OF b'] storage_fault_simps rejected_simps ne)
qed

section \<open>Toggling and deleting\<close>

text \<open>
  Claim C7. On every list of tasks and for every id, \<^verbatim>\<open>toggle_task_completion(id)\<close>
  flips \<^verbatim>\<open>completed\<close> of the task with that id and changes nothing else: every
  other task, the other fields of the toggled task and the order stay. When no task
  has the id the list is unchanged, and toggling twice gives back the original list.
\<close>

theorem toggle_task_completion_flips:
  assumes "tasks_list (store w) = map task_object ts"
  shows "tasks_list (store (snd (toggle_task_completion i w)))
           = map task_object (map (\<lambda>t. if id' t = i then t\<lparr>completed := \<not> completed t\<rparr> else t) ts)
         \<and> (i \<notin> set (map id' ts) \<longrightarrow>
              tasks_list (store (snd (toggle_task_completion i w))) = tasks_list (store w))
         \<and> tasks_list (store (snd (toggle_task_completion i (snd (toggle_task_completion i w)))))
              = tasks_list (store w)"
proof (intro conjI impI)
  show 1: "tasks_list (store (snd (toggle_task_completion i w)))
      = map task_object (map (\<lambda>t. if id' t = i then t\<lparr>completed := \<not> completed t\<rparr> else t) ts)"
    using assms by (rule tasks_after_toggle)
  show "tasks_list (store (snd (toggle_task_completion i w))) = tasks_list (store w)"
    if "i \<notin> set (map id' ts)"
  proof -
    have "map (\<lambda>t. if id' t = i then t\<lparr>completed := \<not> completed t\<rparr> else t) ts = ts"
      using that by (induction ts) auto
    then show ?thesis using 1 assms by simp
  qed
  show "tasks_list (store (snd (toggle_task_completion i (snd (toggle_task_completion i w)))))
      = tasks_list (store w)"
    using tasks_after_toggle [OF 1, of i] assms by (simp add: toggle_twice_id)
qed

theorem toggle_task_completion_flips_witness:
  "tasks_list (store (snd (toggle_task_completion (lit ''1'')
      (initial_world\<lparr>store := initial_state\<lparr>tasks_list :=
         map task_object [\<lparr>id' = lit ''1'', description = lit ''X'', completed = False\<rparr>,
                          \<lparr>id' = lit ''2'', description = lit ''Y'', completed = False\<rparr>]\<rparr>\<rparr>))))
     = map task_object [\<lparr>id' = lit ''1'', description = lit ''X'', completed = True\<rparr>,
                        \<lparr>id' = lit ''2'', description = lit ''Y'', completed = False\<rparr>]
   \<and> tasks_list (store (snd (toggle_task_completion (lit ''1'')
        (snd (toggle_task_completion (lit ''1'')
          (initial_world\<lparr>store := initial_state\<lparr>tasks_list :=
             map task_object [\<lparr>id' = lit ''1'', description = lit ''X'', completed = False\<rparr>,
                              \<lparr>id' = lit ''2'', description = lit ''Y'', completed = False\<rparr>]\<rparr>\<rparr>))))))
     = map task_object [\<lparr>id' = lit ''1'', description = lit ''X'', completed = False\<rparr>,
                        \<lparr>id' = lit ''2'', description = lit ''Y'', completed = False\<rparr>]
   \<and> tasks_list (store (snd (toggle_task_completion (lit ''3'')
      (initial_world\<lparr>store := initial_state\<lparr>tasks_list :=
         map task_object [\<lparr>id' = lit ''1'', description = lit ''X'', completed = False\<rparr>,
                          \<lparr>id' = lit ''2'', description = lit ''Y'', completed = False\<rparr>]\<rparr>\<rparr>))))
     = map task_object [\<lparr>id' = lit ''1'', description = lit ''X'', completed = False\<rparr>,
                        \<lparr>id' = lit ''2'', description = lit ''Y'', completed = False\<rparr>]"
  using toggle_task_completion_flips [of
      "initial_world\<lparr>store := initial_state\<lparr>tasks_list :=
         map task_object [\<lparr>id' = lit ''1'', description = lit ''X'', completed = False\<rparr>,
                          \<lparr>id' = lit ''2'', description = lit ''Y'', completed = False\<rparr>]\<rparr>\<rparr>"
      "[\<lparr>id' = lit ''1'', description = lit ''X'', completed = False\<rparr>,
        \<lparr>id' = lit ''2'', description = lit ''Y'', completed = False\<rparr>]" "lit ''1''"]
    toggle_task_completion_flips [of
      "initial_world\<lparr>store := initial_state\<lparr>tasks_list :=
         map task_object [\<lparr>id' = lit ''1'', description = lit ''X'', completed = False\<rparr>,
                          \<lparr>id' = lit ''2'', description = lit ''Y'', completed = False\<rparr>]\<rparr>\<rparr>"
      "[\<lparr>id' = lit ''1'', description = lit ''X'', completed = False\<rparr>,
        \<lparr>id' = lit ''2'', description = lit ''Y'', completed = False\<rparr>]" "lit ''3''"]
  by (simp add: lit_def)

text \<open>
  Claim C8. On every list of tasks and for every id, \<^verbatim>\<open>delete_task(id)\<close> removes the
  task with that id and keeps the others in their order; \<^verbatim>\<open>has_persisted_data\<close>
  becomes true exactly when the remaining list is non-empty; when no task has the id,
  \<^verbatim>\<open>tasks_list\<close> is unchanged. Where ids are distinct and the id is present, exactly
  one task goes.
\<close>

theorem delete_task_removes:
  assumes "tasks_list (store w) = map task_object ts"
  shows "tasks_list (store (snd (delete_task i w))) = map task_object (filter (\<lambda>t. id' t \<noteq> i) ts)
         \<and> has_persisted_data (store (snd (delete_task i w))) = (filter (\<lambda>t. id' t \<noteq> i) ts \<noteq> [])
         \<and> (i \<notin> set (map id' ts) \<longrightarrow>
              tasks_list (store (snd (delete_task i w))) = tasks_list (store w))
         \<and> (distinct (map id' ts) \<and> i \<in> set (map id' ts) \<longrightarrow>
              length ts = Suc (length (filter (\<lambda>t. id' t \<noteq> i) ts)))"
proof (intro conjI impI)
  show 1: "tasks_list (store (snd (delete_task i w))) = map task_object (filter (\<lambda>t. id' t \<noteq> i) ts)"
    using assms by (rule tasks_after_delete)
  show "has_persisted_data (store (snd (delete_task i w))) = (filter (\<lambda>t. id' t \<noteq> i) ts \<noteq> [])"
    using assms by (rule persisted_after_delete)
  show "tasks_list (store (snd (delete_task i w))) = tasks_list (store w)"
    if "i \<notin> set (map id' ts)"
  proof -
    have "filter (\<lambda>t. id' t \<noteq> i) ts = ts"
      using that by (induction ts) auto
    then show ?thesis using 1 assms by simp
  qed
  show "length ts = Suc (length (filter (\<lambda>t. id' t \<noteq> i) ts))"
    if "distinct (map id' ts) \<and> i \<in> set (map id' ts)"
    using that
  proof (induction ts)
    case Nil
    then show ?case by simp
  next
    case (Cons t ts)
    show ?case
    proof (cases "id' t = i")
      case True
      then have "i \<notin> set (map id' ts)" using Cons.prems by auto
      then have "filter (\<lambda>t. id' t \<noteq> i) ts = ts" by (induction ts) auto
      then show ?thesis using True by simp
    next
      case False
      then show ?thesis using Cons by auto
    qed
  qed
qed

theorem delete_task_removes_witness:
  "tasks_list (store (snd (delete_task (lit ''1'')
      (initial_world\<lparr>store := initial_state\<lparr>tasks_list :=
         map task_object [\<lparr>id' = lit ''1'', description = lit ''X'', completed = False\<rparr>,
                          \<lparr>id' = lit ''2'', description = lit ''Y'', completed = True\<rparr>]\<rparr>\<rparr>))))
     = map task_object [\<lparr>id' = lit ''2'', description = lit ''Y'', completed = True\<rparr>]
   \<and> has_persisted_data (store (snd (delete_task (lit ''1'')
      (initial_world\<lparr>store := initial_state\<lparr>tasks_list :=
         map task_object [\<lparr>id' = lit ''1'', description = lit ''X'', completed = False\<rparr>,
                          \<lparr>id' = lit ''2'', description = lit ''Y'', completed = True\<rparr>]\<rparr>\<rparr>))))
   \<and> tasks_list (store (snd (delete_task (lit ''3'')
      (initial_world\<lparr>store := initial_state\<lparr>tasks_list :=
         map task_object [\<lparr>id' = lit ''1'', description = lit ''X'', completed = False\<rparr>,
                          \<lparr>id' = lit ''2'', description = lit ''Y'', completed = True\<rparr>]\<rparr>\<rparr>))))
     = map task_object [\<lparr>id' = lit ''1'', description = lit ''X'', completed = False\<rparr>,
                        \<lparr>id' = lit ''2'', description = lit ''Y'', completed = True\<rparr>]"
  using delete_task_removes [of
      "initial_world\<lparr>store := initial_state\<lparr>tasks_list :=
         map task_object [\<lparr>id' = lit ''1'', description = lit ''X'', completed = False\<rparr>,
                          \<lparr>id' = lit ''2'', description = lit ''Y'', completed = True\<rparr>]\<rparr>\<rparr>"
      "[\<lparr>id' = lit ''1'', description = lit ''X'', completed = False\<rparr>,
        \<lparr>id' = lit ''2'', description = lit ''Y'', completed = True\<rparr>]" "lit ''1''"]
    delete_task_removes [of
      "initial_world\<lparr>store := initial_state\<lparr>tasks_list :=
         map task_object [\<lparr>id' = lit ''1'', description = lit ''X'', completed = False\<rparr>,
                          \<lparr>id' = lit ''2'', description = lit ''Y'', completed = True\<rparr>]\<rparr>\<rparr>"
      "[\<lparr>id' = lit ''1'', description = lit ''X'', completed = False\<rparr>,
        \<lparr>id' = lit ''2'', description = lit ''Y'', completed = True\<rparr>]" "lit ''3''"]
  by (simp add: lit_def)

section \<open>Round trip through the storage\<close>

text \<open>
  Claim C9. On every list of tasks: when \<^verbatim>\<open>add_new_task\<close>,
  \<^verbatim>\<open>toggle_task_completion\<close> or \<^verbatim>\<open>delete_task\<close> has written its list through (the
  action returned), \<^verbatim>\<open>load_tasks_from_local_storage\<close> run by a store that shares
  nothing with the writing one but the storage, whatever its own state \<open>s\<close> and timers
  \<open>tm\<close> are, returns and yields a \<^verbatim>\<open>tasks_list\<close> identical to the written one: the
  same tasks, with the same ids, descriptions and completion flags, in the same order.
\<close>

theorem persisted_round_trip:
  assumes "tasks_list (store w) = map task_object ts"
  shows "(fst (add_new_task now w) = Returned True \<longrightarrow>
            fst (load_tasks_from_local_storage
                   \<lparr>store = s, localStorage = localStorage (snd (add_new_task now w)), timers = tm\<rparr>)
              = Returned ()
            \<and> tasks_list (store (snd (load_tasks_from_local_storage
                   \<lparr>store = s, localStorage = localStorage (snd (add_new_task now w)), timers = tm\<rparr>)))
              = tasks_list (store (snd (add_new_task now w)))
            \<and> tasks_list (store (snd (add_new_task now w)))
              = map task_object (ts @ [\<lparr>id' = toString now,
                  description = trim (task_input_description (store w)), completed = False\<rparr>]))
       \<and> (fst (toggle_task_completion i w) = Returned () \<longrightarrow>
            fst (load_tasks_from_local_storage
                   \<lparr>store = s, localStorage = localStorage (snd (toggle_task_completion i w)),
                    timers = tm\<rparr>)
              = Returned ()
            \<and> tasks_list (store (snd (load_tasks_from_local_storage
                   \<lparr>store = s, localStorage = localStorage (snd (toggle_task_completion i w)),
                    timers = tm\<rparr>)))
              = tasks_list (store (snd (toggle_task_completion i w)))
            \<and> tasks_list (store (snd (toggle_task_completion i w)))
              = map task_object
                  (map (\<lambda>t. if id' t = i then t\<lparr>completed := \<not> completed t\<rparr> else t) ts))
       \<and> (fst (delete_task i w) = Returned () \<longrightarrow>
            fst (load_tasks_from_local_storage
                   \<lparr>store = s, localStorage = localStorage (snd (delete_task i w)), timers = tm\<rparr>)
              = Returned ()
            \<and> tasks_list (store (snd (load_tasks_from_local_storage
                   \<lparr>store = s, localStorage = localStorage (snd (delete_task i w)), timers = tm\<rparr>)))
              = tasks_list (store (snd (delete_task i w)))
            \<and> tasks_list (store (snd (delete_task i w)))
              = map task_object (filter (\<lambda>t. id' t \<noteq> i) ts))"
proof (intro conjI impI)
  assume r: "fst (add_new_task now w) = Returned True"
  note v = add_new_task_True_valid [OF r]
  note a = add_new_task_True_storage [OF r]
  note st = add_new_task_valid_storage [OF conjunct1 [OF v] conjunct2 [OF v]
      conjunct1 [OF a] conjunct2 [OF a], of now]
  show t: "tasks_list (store (snd (add_new_task now w)))
      = map task_object (ts @ [\<lparr>id' = toString now,
          description = trim (task_input_description (store w)), completed = False\<rparr>])"
    by (simp add: add_new_task_valid_tasks [OF conjunct1 [OF v] conjunct2 [OF v]] assms)
  show "fst (load_tasks_from_local_storage
         \<lparr>store = s, localStorage = localStorage (snd (add_new_task now w)), timers = tm\<rparr>)
      = Returned ()"
    using st conjunct1 [OF a] conjunct2 [OF a] t by (rule reload_written(1))
  show "tasks_list (store (snd (load_tasks_from_local_storage
         \<lparr>store = s, localStorage = localStorage (snd (add_new_task now w)), timers = tm\<rparr>)))
      = tasks_list (store (snd (add_new_task now w)))"
    unfolding t using st conjunct1 [OF a] conjunct2 [OF a] t by (rule reload_written(2))
next
  assume r: "fst (toggle_task_completion i w) = Returned ()"
  note a = toggle_Returned_storage [OF assms r]
  note st = toggle_storage [OF assms conjunct1 [OF a] conjunct2 [OF a], of i]
  show t: "tasks_list (store (snd (toggle_task_completion i w)))
      = map task_object (map (\<lambda>t. if id' t = i then t\<lparr>completed := \<not> completed t\<rparr> else t) ts)"
    using assms by (rule tasks_after_toggle)
  show "fst (load_tasks_from_local_storage
         \<lparr>store = s, localStorage = localStorage (snd (toggle_task_completion i w)), timers = tm\<rparr>)
      = Returned ()"
    using st conjunct1 [OF a] conjunct2 [OF a] t by (rule reload_written(1))
  show "tasks_list (store (snd (load_tasks_from_local_storage
         \<lparr>store = s, localStorage = localStorage (snd (toggle_task_completion i w)), timers = tm\<rparr>)))
      = tasks_list (store (snd (toggle_task_completion i w)))"
    unfolding t using st conjunct1 [OF a] conjunct2 [OF a] t by (rule reload_written(2))
next
  assume r: "fst (delete_task i w) = Returned ()"
  note a = delete_Returned_storage [OF assms r]
  note st = delete_storage [OF assms conjunct1 [OF a] conjunct2 [OF a], of i]
  show t: "tasks_list (store (snd (delete_task i w)))
      = map task_object (filter (\<lambda>t. id' t \<noteq> i) ts)"
    using assms by (rule tasks_after_delete)
  show "fst (load_tasks_from_local_storage
         \<lparr>store = s, localStorage = localStorage (snd (delete_task i w)), timers = tm\<rparr>)
      = Returned ()"
    using st conjunct1 [OF a] conjunct2 [OF a] t by (rule reload_written(1))
  show "tasks_list (store (snd (load_tasks_from_local_storage
         \<lparr>store = s, localStorage = localStorage (snd (delete_task i w)), timers = tm\<rparr>)))
      = tasks_list (store (snd (delete_task i w)))"
    unfolding t using st conjunct1 [OF a] conjunct2 [OF a] t by (rule reload_written(2))
qed

theorem persisted_round_trip_witness:
  "tasks_list (store (snd (load_tasks_from_local_storage
      \<lparr>store = initial_state,
       localStorage = localStorage (snd (add_new_task 1700000000000 scenario_A)),
       timers = []\<rparr>)))
     = [task_object \<lparr>id' = lit ''1700000000000'', description = lit ''Buy milk'',
          completed = False\<rparr>]
   \<and> tasks_list (store (snd (load_tasks_from_local_storage
      \<lparr>store = initial_state,
       localStorage = localStorage (snd (toggle_task_completion (lit ''1'') scenario_B)),
       timers = []\<rparr>)))
     = [task_object (task_X\<lparr>completed := True\<rparr>)]
   \<and> tasks_list (store (snd (load_tasks_from_local_storage
      \<lparr>store = initial_state,
       localStorage = localStorage (snd (delete_task (lit ''9'') scenario_B)),
       timers = []\<rparr>)))
     = [task_object task_X]"
proof -
  note t = scenario_A_simps(2)
  note u = scenario_B_simps(2)
  have r: "fst (add_new_task 1700000000000 scenario_A) = Returned True"
    "fst (toggle_task_completion (lit ''1'') scenario_B) = Returned ()"
    "fst (delete_task (lit ''9'') scenario_B) = Returned ()"
    by (simp_all add: add_new_task_valid_result [OF scenario_A_valid] toggle_result [OF u]
        delete_result [OF u] scenario_A_simps scenario_B_simps)
  show ?thesis
    using persisted_round_trip [OF t, of 1700000000000 initial_state "[]"]
      persisted_round_trip [OF u, of _ initial_state "[]" "lit ''1''"]
      persisted_round_trip [OF u, of _ initial_state "[]" "lit ''9''"]
    by (simp add: r scenario_A_simps trim_examples toString_example task_X_simps id_literals
        del: JSON_stringify.simps)
qed

section \<open>Actions on an id that is not in the list\<close>

text \<open>
  Claim C10, as the store implements it. On a list of tasks and for an id that no task
  has, \<^verbatim>\<open>toggle_task_completion\<close> leaves the state of the store unchanged;
  \<^verbatim>\<open>delete_task\<close> leaves it unchanged but for \<^verbatim>\<open>has_persisted_data\<close>, which it
  sets to whether the list is non-empty (no change when the field already said so); and
  with a storage that accepts writes both return after two writes: \<^verbatim>\<open>set\<close> writes the
  item of the middleware, and \<^verbatim>\<open>setItem\<close> then writes the text of the whole,
  unchanged list under the storage key.
\<close>

theorem absent_id_still_writes:
  assumes "tasks_list (store w) = map task_object ts"
    and "i \<notin> set (map id' ts)"
  shows "store (snd (toggle_task_completion i w)) = store w
       \<and> store (snd (delete_task i w)) = (store w)\<lparr>has_persisted_data := (ts \<noteq> [])\<rparr>
       \<and> (\<not> access_denied (localStorage w) \<and> \<not> quota_exceeded (localStorage w) \<longrightarrow>
            fst (toggle_task_completion i w) = Returned ()
            \<and> new_calls w (snd (toggle_task_completion i w))
                 = [SetItem persist_name (persist_item (store w)),
                    SetItem LOCAL_STORAGE_KEY (JSON_stringify (JArray (tasks_list (store w))))]
            \<and> fst (delete_task i w) = Returned ()
            \<and> new_calls w (snd (delete_task i w))
                 = [SetItem persist_name
                      (persist_item ((store w)\<lparr>has_persisted_data := (ts \<noteq> [])\<rparr>)),
                    SetItem LOCAL_STORAGE_KEY (JSON_stringify (JArray (tasks_list (store w))))])"
proof (intro conjI impI)
  note m = toggle_absent [OF assms(2)]
  note f = filter_absent [OF assms(2)]
  show 1: "store (snd (toggle_task_completion i w)) = store w"
    using assms(1) by (simp add: store_after_toggle [OF assms(1)] m)
  show 2: "store (snd (delete_task i w)) = (store w)\<lparr>has_persisted_data := (ts \<noteq> [])\<rparr>"
    using assms(1) by (simp add: store_after_delete [OF assms(1)] f)
  assume a: "\<not> access_denied (localStorage w) \<and> \<not> quota_exceeded (localStorage w)"
  show "fst (toggle_task_completion i w) = Returned ()"
    using a by (simp add: toggle_result [OF assms(1)])
  show "fst (delete_task i w) = Returned ()"
    using a by (simp add: delete_result [OF assms(1)])
  have "new_calls w (snd (toggle_task_completion i w))
      = [SetItem persist_name (persist_item (store (snd (toggle_task_completion i w)))),
         SetItem LOCAL_STORAGE_KEY
           (JSON_stringify (JArray (tasks_list (store (snd (toggle_task_completion i w))))))]"
    using toggle_storage [OF assms(1) conjunct1 [OF a] conjunct2 [OF a]]
      conjunct1 [OF a] conjunct2 [OF a]
    by (rule two_writes(1))
  then show "new_calls w (snd (toggle_task_completion i w))
      = [SetItem persist_name (persist_item (store w)),
         SetItem LOCAL_STORAGE_KEY (JSON_stringify (JArray (tasks_list (store w))))]"
    by (simp only: 1)
  have "new_calls w (snd (delete_task i w))
      = [SetItem persist_name (persist_item (store (snd (delete_task i w)))),
         SetItem LOCAL_STORAGE_KEY
           (JSON_stringify (JArray (tasks_list (store (snd (delete_task i w))))))]"
    using delete_storage [OF assms(1) conjunct1 [OF a] conjunct2 [OF a]]
      conjunct1 [OF a] conjunct2 [OF a]
    by (rule two_writes(1))
  then show "new_calls w (snd (delete_task i w))
      = [SetItem persist_name (persist_item ((store w)\<lparr>has_persisted_data := (ts \<noteq> [])\<rparr>)),
         SetItem LOCAL_STORAGE_KEY (JSON_stringify (JArray (tasks_list (store w))))]"
    by (simp add: 2 del: JSON_stringify.simps)
qed

theorem absent_id_still_writes_witness:
  "store (snd (toggle_task_completion (lit ''9'') scenario_B)) = store scenario_B
   \<and> store (snd (delete_task (lit ''9'') scenario_B)) = store scenario_B
   \<and> new_calls scenario_B (snd (delete_task (lit ''9'') scenario_B))
       = [SetItem persist_name (persist_item (store scenario_B)),
          SetItem LOCAL_STORAGE_KEY (JSON_stringify (JArray [task_object task_X]))]"
proof -
  note u = scenario_B_simps(2)
  have n: "lit ''9'' \<notin> set (map id' [task_X])"
    by (simp add: task_X_simps id_literals)
  show ?thesis
    using absent_id_still_writes [OF u n]
    by (simp add: scenario_B_simps initial_state_def del: JSON_stringify.simps)
qed

text \<open>
  \<^verbatim>\<open>delete_task\<close> on an absent id can change the state. After the slot has been
  overwritten with \<^verbatim>\<open>{}\<close>, loading empties the list and leaves
  \<^verbatim>\<open>has_persisted_data\<close> true; deleting an id that is not there then sets it to
  false.
\<close>

theorem absent_id_still_writes_counterexample:
  "tasks_list (store (snd (load_tasks_from_local_storage overwritten_slot))) = []
   \<and> has_persisted_data (store (snd (load_tasks_from_local_storage overwritten_slot)))
   \<and> \<not> has_persisted_data (store (snd (delete_task (lit ''9'')
        (snd (load_tasks_from_local_storage overwritten_slot)))))"
proof -
  let ?w = "snd (load_tasks_from_local_storage overwritten_slot)"
  have ne: "lit ''{}'' \<noteq> []" by (simp add: lit_def)
  have s: "tasks_list (store ?w) = []" "has_persisted_data (store ?w)"
    by (simp_all add: overwritten_slot_def load_world_of parse_examples ne scenario_B_simps(1))
  have t: "tasks_list (store ?w) = map task_object []"
    using s by simp
  show ?thesis
    using s by (simp add: store_after_delete [OF t])
qed

end
